theory Spec2Isabelle
  imports Complex_Main
begin

section \<open>Numbers of the host language\<close>

text \<open>
  A TypeScript \<open>number\<close> is a finite value, one of the two infinities, or NaN.
  Finite values are taken as exact reals: rounding, overflow to an infinity and the
  sign of zero are not part of this model.  The special values follow IEEE 754.
\<close>

datatype jsnum = NaN | NegInf | Fin real | PosInf

text \<open>The comparison \<open>a < b\<close>: false as soon as one side is NaN.\<close>

fun jlt :: "jsnum \<Rightarrow> jsnum \<Rightarrow> bool" where
  "jlt NaN b = False"
| "jlt a NaN = False"
| "jlt PosInf b = False"
| "jlt a NegInf = False"
| "jlt NegInf b = True"
| "jlt a PosInf = True"
| "jlt (Fin a) (Fin b) = (a < b)"

text \<open>The comparison \<open>a > b\<close>.\<close>

definition jgt :: "jsnum \<Rightarrow> jsnum \<Rightarrow> bool" where
  "jgt a b = jlt b a"

text \<open>The comparison \<open>a <= b\<close>.\<close>

definition jle :: "jsnum \<Rightarrow> jsnum \<Rightarrow> bool" where
  "jle a b = (jlt a b \<or> (a \<noteq> NaN \<and> a = b))"

fun jneg :: "jsnum \<Rightarrow> jsnum" where
  "jneg NaN = NaN"
| "jneg NegInf = PosInf"
| "jneg (Fin a) = Fin (- a)"
| "jneg PosInf = NegInf"

text \<open>\<open>a + b\<close>: the sum of opposite infinities is NaN.\<close>

fun jadd :: "jsnum \<Rightarrow> jsnum \<Rightarrow> jsnum" where
  "jadd NaN b = NaN"
| "jadd a NaN = NaN"
| "jadd (Fin a) (Fin b) = Fin (a + b)"
| "jadd PosInf NegInf = NaN"
| "jadd NegInf PosInf = NaN"
| "jadd PosInf b = PosInf"
| "jadd a PosInf = PosInf"
| "jadd NegInf b = NegInf"
| "jadd a NegInf = NegInf"

definition jsub :: "jsnum \<Rightarrow> jsnum \<Rightarrow> jsnum" where
  "jsub a b = jadd a (jneg b)"

text \<open>The infinity of a given sign.\<close>

definition signed_inf :: "bool \<Rightarrow> jsnum" where
  "signed_inf negative = (if negative then NegInf else PosInf)"

text \<open>\<open>a * b\<close>: an infinity times zero is NaN.\<close>

fun jmul :: "jsnum \<Rightarrow> jsnum \<Rightarrow> jsnum" where
  "jmul NaN b = NaN"
| "jmul a NaN = NaN"
| "jmul (Fin a) (Fin b) = Fin (a * b)"
| "jmul (Fin a) PosInf = (if a = 0 then NaN else signed_inf (a < 0))"
| "jmul (Fin a) NegInf = (if a = 0 then NaN else signed_inf (0 < a))"
| "jmul PosInf (Fin b) = (if b = 0 then NaN else signed_inf (b < 0))"
| "jmul NegInf (Fin b) = (if b = 0 then NaN else signed_inf (0 < b))"
| "jmul PosInf PosInf = PosInf"
| "jmul NegInf NegInf = PosInf"
| "jmul PosInf NegInf = NegInf"
| "jmul NegInf PosInf = NegInf"

text \<open>\<open>a / b\<close>: a zero divisor is read as positive zero.\<close>

fun jdiv :: "jsnum \<Rightarrow> jsnum \<Rightarrow> jsnum" where
  "jdiv NaN b = NaN"
| "jdiv a NaN = NaN"
| "jdiv (Fin a) (Fin b) =
     (if b = 0 then (if a = 0 then NaN else signed_inf (a < 0)) else Fin (a / b))"
| "jdiv (Fin a) PosInf = Fin 0"
| "jdiv (Fin a) NegInf = Fin 0"
| "jdiv PosInf (Fin b) = signed_inf (b < 0)"
| "jdiv NegInf (Fin b) = signed_inf (0 \<le> b)"
| "jdiv PosInf b = NaN"
| "jdiv NegInf b = NaN"

text \<open>\<open>Math.sqrt\<close>.\<close>

fun jsqrt :: "jsnum \<Rightarrow> jsnum" where
  "jsqrt NaN = NaN"
| "jsqrt NegInf = NaN"
| "jsqrt PosInf = PosInf"
| "jsqrt (Fin a) = (if a < 0 then NaN else Fin (sqrt a))"

text \<open>\<open>Math.pow(x, 2)\<close>.\<close>

fun jpow2 :: "jsnum \<Rightarrow> jsnum" where
  "jpow2 NaN = NaN"
| "jpow2 NegInf = PosInf"
| "jpow2 PosInf = PosInf"
| "jpow2 (Fin a) = Fin (a ^ 2)"

text \<open>
  Reading \<open>b[i]\<close> from an array of numbers: past the end the read gives
  \<open>undefined\<close>, which arithmetic turns into NaN.
\<close>

definition at_index :: "jsnum list \<Rightarrow> nat \<Rightarrow> jsnum" where
  "at_index b i = (if i < length b then b ! i else NaN)"

section \<open>SimpleBayesianOptimizer\<close>

record observation =
  params :: "jsnum list"
  value_of :: jsnum

record optimizer =
  observations :: "observation list"
  bounds :: "(jsnum \<times> jsnum) list"
  maximize :: bool

definition constructor :: "(jsnum \<times> jsnum) list \<Rightarrow> bool \<Rightarrow> optimizer" where
  "constructor bs mx = \<lparr>observations = [], bounds = bs, maximize = mx\<rparr>"

definition addObservation :: "jsnum list \<Rightarrow> jsnum \<Rightarrow> optimizer \<Rightarrow> optimizer" where
  "addObservation ps v opt =
     opt\<lparr>observations := observations opt @ [\<lparr>params = ps, value_of = v\<rparr>]\<rparr>"

subsection \<open>getBestResult\<close>

text \<open>
  The failure the specification names for a request on an empty log.  The method of
  the source has no branch that produces it.
\<close>

datatype error = EmptyLog

text \<open>The scan \<open>for (let i = 1; i < this.observations.length; i++)\<close>.\<close>

function best_loop :: "observation list \<Rightarrow> bool \<Rightarrow> nat \<Rightarrow> nat \<Rightarrow> nat" where
  "best_loop obs mx i bestIndex =
     (if i < length obs
      then best_loop obs mx (i + 1)
             (if (mx \<and> jgt (value_of (obs ! i)) (value_of (obs ! bestIndex))) \<or>
                 (\<not> mx \<and> jlt (value_of (obs ! i)) (value_of (obs ! bestIndex)))
              then i else bestIndex)
      else bestIndex)"
  by pat_completeness auto
termination
  by (relation "measure (\<lambda>(obs, mx, i, bestIndex). length obs - i)") auto

declare best_loop.simps [simp del]

text \<open>
  The method returns its result and assigns no field: the optimizer comes back as it
  went in.
\<close>

definition getBestResult :: "optimizer \<Rightarrow> (error + observation) \<times> optimizer" where
  "getBestResult opt =
     (if length (observations opt) = 0
      then (Inr \<lparr>params = [], value_of = Fin 0\<rparr>, opt)
      else (Inr (observations opt ! best_loop (observations opt) (maximize opt) 1 0), opt))"

subsection \<open>Randomness\<close>

text \<open>
  \<open>Math.random()\<close> is the one source of randomness.  It is modelled as a fixed
  sequence of draws and the count of draws already used; a call reads the next draw
  and advances the count.
\<close>

record rng =
  draws :: "nat \<Rightarrow> real"
  used :: nat

definition Math_random :: "rng \<Rightarrow> real \<times> rng" where
  "Math_random g = (draws g (used g), g\<lparr>used := used g + 1\<rparr>)"

text \<open>
  \<open>this.bounds.map(([min, max]) => min + Math.random() * (max - min))\<close>: one draw per
  row of the bounds matrix, in order.
\<close>

fun sample :: "(jsnum \<times> jsnum) list \<Rightarrow> rng \<Rightarrow> jsnum list \<times> rng" where
  "sample [] g = ([], g)"
| "sample ((mn, mx) # bs) g =
     (let (r, g1) = Math_random g;
          x = jadd mn (jmul (Fin r) (jsub mx mn));
          (xs, g2) = sample bs g1
      in (x # xs, g2))"

subsection \<open>The acquisition score\<close>

text \<open>
  \<open>a.reduce((sum, val, i) => sum + Math.pow(val - b[i], 2), 0)\<close>, with the index i
  and the running sum as arguments.
\<close>

fun reduce_sq :: "jsnum list \<Rightarrow> jsnum list \<Rightarrow> nat \<Rightarrow> jsnum \<Rightarrow> jsnum" where
  "reduce_sq [] b i sum_acc = sum_acc"
| "reduce_sq (v # a) b i sum_acc =
     reduce_sq a b (i + 1) (jadd sum_acc (jpow2 (jsub v (at_index b i))))"

definition calculateDistance :: "jsnum list \<Rightarrow> jsnum list \<Rightarrow> jsnum" where
  "calculateDistance a b = jsqrt (reduce_sq a b 0 (Fin 0))"

text \<open>
  The loop of estimateMean over the log; it returns the pair
  (totalWeight, weightedSum).
\<close>

fun mean_loop ::
  "jsnum list \<Rightarrow> observation list \<Rightarrow> jsnum \<Rightarrow> jsnum \<Rightarrow> jsnum \<times> jsnum" where
  "mean_loop ps [] totalWeight weightedSum = (totalWeight, weightedSum)"
| "mean_loop ps (obs # rest) totalWeight weightedSum =
     (let distance = calculateDistance ps (params obs);
          weight = jdiv (Fin 1) (jadd (Fin 1) distance)
      in mean_loop ps rest (jadd totalWeight weight)
           (jadd weightedSum (jmul weight (value_of obs))))"

definition estimateMean :: "optimizer \<Rightarrow> jsnum list \<Rightarrow> jsnum" where
  "estimateMean opt ps =
     (let (totalWeight, weightedSum) = mean_loop ps (observations opt) (Fin 0) (Fin 0)
      in if jgt totalWeight (Fin 0) then jdiv weightedSum totalWeight else Fin 0)"

text \<open>The loop of calculateExploration; the argument is minDistance.\<close>

fun explore_loop :: "jsnum list \<Rightarrow> observation list \<Rightarrow> jsnum \<Rightarrow> jsnum" where
  "explore_loop ps [] minDistance = minDistance"
| "explore_loop ps (obs # rest) minDistance =
     (let distance = calculateDistance ps (params obs)
      in explore_loop ps rest (if jlt distance minDistance then distance else minDistance))"

definition calculateExploration :: "optimizer \<Rightarrow> jsnum list \<Rightarrow> jsnum" where
  "calculateExploration opt ps =
     (let minDistance = explore_loop ps (observations opt) PosInf
      in if minDistance = PosInf then Fin 1 else minDistance)"

definition calculateAcquisition :: "optimizer \<Rightarrow> jsnum list \<Rightarrow> jsnum" where
  "calculateAcquisition opt ps =
     (let mean = estimateMean opt ps;
          exploration = calculateExploration opt ps
      in if maximize opt then jadd mean exploration else jsub mean exploration)"

subsection \<open>suggest\<close>

definition numCandidates :: nat where
  "numCandidates = 100"

text \<open>
  The loop \<open>for (let i = 0; i < numCandidates; i++)\<close> of acquisitionFunction, with
  the incumbent candidate and its score as arguments.
\<close>

function acq_loop ::
  "optimizer \<Rightarrow> nat \<Rightarrow> jsnum list \<Rightarrow> jsnum \<Rightarrow> rng \<Rightarrow> jsnum list \<times> rng" where
  "acq_loop opt i bestCandidate bestAcquisition g =
     (if i < numCandidates
      then (let (candidate, g1) = sample (bounds opt) g;
                acquisition = calculateAcquisition opt candidate
            in if (maximize opt \<and> jgt acquisition bestAcquisition) \<or>
                  (\<not> maximize opt \<and> jlt acquisition bestAcquisition)
               then acq_loop opt (i + 1) candidate acquisition g1
               else acq_loop opt (i + 1) bestCandidate bestAcquisition g1)
      else (bestCandidate, g))"
  by pat_completeness auto
termination
  by (relation "measure (\<lambda>(opt, i, bestCandidate, bestAcquisition, g). numCandidates - i)") auto

declare acq_loop.simps [simp del]

definition acquisitionFunction :: "optimizer \<Rightarrow> rng \<Rightarrow> jsnum list \<times> rng" where
  "acquisitionFunction opt g =
     acq_loop opt 0 [] (if maximize opt then NegInf else PosInf) g"

definition suggest :: "optimizer \<Rightarrow> rng \<Rightarrow> jsnum list \<times> rng" where
  "suggest opt g =
     (if length (observations opt) < 3
      then sample (bounds opt) g
      else acquisitionFunction opt g)"

section \<open>Strings and conversions of the host language\<close>

text \<open>
  A string is the list of the UTF-8 bytes of its text.  White space is what
  \<open>trim\<close> and the numeric conversions strip, the white space and line terminator
  code points of the language, each in its UTF-8 form: U+0009 to U+000D, U+0020,
  U+00A0, U+1680, U+2000 to U+200A, U+2028, U+2029, U+202F, U+205F, U+3000 and
  U+FEFF.
\<close>

definition white_space :: "string list" where
  "white_space =
     [[CHR 0x09], [CHR 0x0A], [CHR 0x0B], [CHR 0x0C], [CHR 0x0D], [CHR 0x20],
      [CHR 0xC2, CHR 0xA0],
      [CHR 0xE1, CHR 0x9A, CHR 0x80],
      [CHR 0xE2, CHR 0x80, CHR 0x80], [CHR 0xE2, CHR 0x80, CHR 0x81],
      [CHR 0xE2, CHR 0x80, CHR 0x82], [CHR 0xE2, CHR 0x80, CHR 0x83],
      [CHR 0xE2, CHR 0x80, CHR 0x84], [CHR 0xE2, CHR 0x80, CHR 0x85],
      [CHR 0xE2, CHR 0x80, CHR 0x86], [CHR 0xE2, CHR 0x80, CHR 0x87],
      [CHR 0xE2, CHR 0x80, CHR 0x88], [CHR 0xE2, CHR 0x80, CHR 0x89],
      [CHR 0xE2, CHR 0x80, CHR 0x8A],
      [CHR 0xE2, CHR 0x80, CHR 0xA8], [CHR 0xE2, CHR 0x80, CHR 0xA9],
      [CHR 0xE2, CHR 0x80, CHR 0xAF],
      [CHR 0xE2, CHR 0x81, CHR 0x9F],
      [CHR 0xE3, CHR 0x80, CHR 0x80],
      [CHR 0xEF, CHR 0xBB, CHR 0xBF]]"

text \<open>The length of the first of the given forms that the string starts with; 0 when it starts with none.\<close>

definition leading :: "string list \<Rightarrow> string \<Rightarrow> nat" where
  "leading forms s =
     (case find (\<lambda>w. take (length w) s = w) forms of None \<Rightarrow> 0 | Some w \<Rightarrow> length w)"

text \<open>The string without the forms it starts with.\<close>

function strip :: "string list \<Rightarrow> string \<Rightarrow> string" where
  "strip forms s =
     (if leading forms s = 0 \<or> s = [] then s else strip forms (drop (leading forms s) s))"
  by pat_completeness auto
termination
  by (relation "measure (\<lambda>(forms, s). length s)") auto

declare strip.simps [simp del]

text \<open>\<open>s.trim()\<close>: white space is stripped at the start and at the end.\<close>

definition trim :: "string \<Rightarrow> string" where
  "trim s = rev (strip (map rev white_space) (rev (strip white_space s)))"

text \<open>\<open>s.split(',')\<close> for a one-character separator: the empty string gives one empty piece.\<close>

fun split_char :: "char \<Rightarrow> string \<Rightarrow> string list" where
  "split_char sep [] = [[]]"
| "split_char sep (c # cs) =
     (if c = sep then [] # split_char sep cs
      else (case split_char sep cs of p # ps \<Rightarrow> (c # p) # ps | [] \<Rightarrow> [[c]]))"

text \<open>
  \<open>s.split(/[...]+/)\<close> for a character class: every maximal run of separator
  characters separates two pieces.
\<close>

function split_runs :: "(char \<Rightarrow> bool) \<Rightarrow> string \<Rightarrow> string list" where
  "split_runs sep [] = [[]]"
| "split_runs sep (c # cs) =
     (if sep c then [] # split_runs sep (dropWhile sep cs)
      else (case split_runs sep cs of p # ps \<Rightarrow> (c # p) # ps | [] \<Rightarrow> [[c]]))"
  by pat_completeness auto
termination
  by (relation "measure (\<lambda>(sep, s). length s)")
     (auto simp: less_Suc_eq_le length_dropWhile_le)

definition isDigit :: "char \<Rightarrow> bool" where
  "isDigit c = (48 \<le> (of_char c :: nat) \<and> (of_char c :: nat) \<le> 57)"

text \<open>The value of a string of decimal digits.\<close>

definition digits_value :: "string \<Rightarrow> nat" where
  "digits_value ds = foldl (\<lambda>n c. 10 * n + ((of_char c :: nat) - 48)) 0 ds"

text \<open>
  An optional exponent part \<open>e\<close> or \<open>E\<close>, an optional sign, digits.  The result is
  the exponent and the rest of the string; without digits nothing is consumed.
\<close>

definition scan_exponent :: "string \<Rightarrow> int \<times> string" where
  "scan_exponent s =
     (case s of
        [] \<Rightarrow> (0, s)
      | c # r \<Rightarrow>
          if c = CHR ''e'' \<or> c = CHR ''E'' then
            (let negative = (r \<noteq> [] \<and> hd r = CHR ''-'');
                 signed = (r \<noteq> [] \<and> (hd r = CHR ''-'' \<or> hd r = CHR ''+''));
                 r1 = (if signed then tl r else r);
                 ds = takeWhile isDigit r1
             in if ds = [] then (0, s)
                else ((if negative then - int (digits_value ds) else int (digits_value ds)),
                      dropWhile isDigit r1))
          else (0, s))"

text \<open>
  The longest prefix that is an unsigned decimal literal of the string-to-number
  grammar: \<open>Infinity\<close>, or digits with an optional fraction and exponent, or a
  fraction with an optional exponent.  The value is exact.
\<close>

definition scan_unsigned :: "string \<Rightarrow> (jsnum \<times> string) option" where
  "scan_unsigned s =
     (if take 8 s = ''Infinity'' then Some (PosInf, drop 8 s)
      else
        (let ip = takeWhile isDigit s;
             r1 = dropWhile isDigit s;
             has_dot = (r1 \<noteq> [] \<and> hd r1 = CHR ''.'');
             fp = (if has_dot then takeWhile isDigit (tl r1) else []);
             r2 = (if has_dot then dropWhile isDigit (tl r1) else r1)
         in if ip = [] \<and> fp = [] then None
            else
              (let (e, r3) = scan_exponent r2;
                   m = real (digits_value ip) + real (digits_value fp) / 10 ^ length fp
               in Some (Fin (if 0 \<le> e then m * 10 ^ nat e else m / 10 ^ nat (- e)), r3))))"

definition scan_signed :: "string \<Rightarrow> (jsnum \<times> string) option" where
  "scan_signed s =
     (case s of
        [] \<Rightarrow> None
      | c # r \<Rightarrow>
          if c = CHR ''+'' then scan_unsigned r
          else if c = CHR ''-'' then map_option (\<lambda>(v, rest). (jneg v, rest)) (scan_unsigned r)
          else scan_unsigned s)"

text \<open>\<open>parseFloat(s)\<close>: leading white space is skipped, what follows the literal is ignored.\<close>

definition parseFloat :: "string \<Rightarrow> jsnum" where
  "parseFloat s =
     (case scan_signed (strip white_space s) of None \<Rightarrow> NaN | Some (v, rest) \<Rightarrow> v)"

text \<open>
  The value of a digit in a base up to 16, and a literal \<open>0x\<close>, \<open>0o\<close> or \<open>0b\<close>
  followed by digits of its base.
\<close>

definition digit_in_base :: "nat \<Rightarrow> char \<Rightarrow> nat option" where
  "digit_in_base b c =
     (let n = (of_char c :: nat);
          v = (if 48 \<le> n \<and> n \<le> 57 then Some (n - 48)
               else if 97 \<le> n \<and> n \<le> 102 then Some (n - 87)
               else if 65 \<le> n \<and> n \<le> 70 then Some (n - 55)
               else None)
      in case v of None \<Rightarrow> None | Some d \<Rightarrow> if d < b then Some d else None)"

definition nondecimal_literal :: "string \<Rightarrow> jsnum" where
  "nondecimal_literal s =
     (case s of
        z # x # ds \<Rightarrow>
          (let b = (if x = CHR ''x'' \<or> x = CHR ''X'' then 16
                    else if x = CHR ''o'' \<or> x = CHR ''O'' then 8
                    else if x = CHR ''b'' \<or> x = CHR ''B'' then 2 else (0::nat))
           in if z = CHR ''0'' \<and> b \<noteq> 0 \<and> ds \<noteq> [] \<and> list_all (\<lambda>c. digit_in_base b c \<noteq> None) ds
              then Fin (real (foldl (\<lambda>n c. b * n + the (digit_in_base b c)) 0 ds))
              else NaN)
      | _ \<Rightarrow> NaN)"

text \<open>
  \<open>Number(s)\<close>: the whole trimmed string must be a literal; the empty string is 0.
\<close>

definition Number :: "string \<Rightarrow> jsnum" where
  "Number s =
     (let t = trim s
      in if t = [] then Fin 0
         else (case scan_signed t of
                 Some (v, []) \<Rightarrow> v
               | _ \<Rightarrow> nondecimal_literal t))"

text \<open>\<open>parseFloat(x)\<close> of a value that may be \<open>undefined\<close>.\<close>

definition parseFloat_of :: "string option \<Rightarrow> jsnum" where
  "parseFloat_of x = (case x of None \<Rightarrow> NaN | Some s \<Rightarrow> parseFloat s)"

text \<open>\<open>x || 0\<close> for a number x: NaN and zero are falsy.\<close>

definition or_zero :: "jsnum \<Rightarrow> jsnum" where
  "or_zero x = (if x = NaN \<or> x = Fin 0 then Fin 0 else x)"

text \<open>
  \<open>categories.indexOf(x)\<close>: the first position holding x, \<open>None\<close> for the result -1.
  An \<open>undefined\<close> x is never found.
\<close>

fun indexOf :: "string list \<Rightarrow> string option \<Rightarrow> nat option" where
  "indexOf [] x = None"
| "indexOf (c # cs) x =
     (if x = Some c then Some 0 else map_option Suc (indexOf cs x))"

text \<open>
  A record keyed by strings, in insertion order: assigning to a key keeps its place.
\<close>

fun assign :: "string \<Rightarrow> 'v \<Rightarrow> (string \<times> 'v) list \<Rightarrow> (string \<times> 'v) list" where
  "assign k v [] = [(k, v)]"
| "assign k v ((k', v') # m) = (if k = k' then (k, v) # m else (k', v') # assign k v m)"

definition fromEntries :: "(string \<times> 'v) list \<Rightarrow> (string \<times> 'v) list" where
  "fromEntries es = foldl (\<lambda>m (k, v). assign k v m) [] es"

section \<open>The page: session state and handlers\<close>

text \<open>
  The state of the page component that the handlers below read and write, together
  with the browser's storage entry and the random generator.  Display strings
  (\<open>currentParams\<close>, \<open>results\<close>, \<open>objectiveValue\<close>) and the loading flag are not
  part of it; handleRegister and importHistoryData are not modelled.  A handler reads
  the state of the render it was created in and queues its writes: every handler is
  a function of that state, and a handler called from another one takes the state that
  was read and the state being written.

  The \<open>params\<close> object of a trial is mutated in place and is shared between a manual
  trial and the history item made from it, so these objects live in a store: a trial
  holds the address of its object, \<open>objects\<close> maps an address to the entries of the
  object in insertion order, and \<open>allocated\<close> is the next free address.  The storage
  entry is text: it holds the entries the objects had when it was written.
\<close>

datatype ptype = Continuous | Categorical | Integer

record parameter =
  name :: string
  ptype :: ptype
  range_text :: string

datatype direction = Minimize | Maximize

datatype phase = Setup | Manual | Optimization

text \<open>A manual trial and a history item have the same shape.\<close>

record trial =
  trial_params :: nat
  trial_value :: string

text \<open>A history item as the storage entry holds it.\<close>

record saved_trial =
  saved_params :: "(string \<times> string) list"
  saved_value :: string

record config =
  cfg_parameters :: "parameter list"
  cfg_direction :: direction
  cfg_trialCount :: jsnum

record stored =
  st_history :: "saved_trial list"
  st_phase :: phase
  st_config :: "config option"

text \<open>
  The messages passed to \<open>setError\<close>; \<open>NoMessage\<close> is the empty string.
\<close>

datatype message =
    NoMessage
  | NeedValidParameter
  | TrialCountOutOfRange
  | FillParameters "string list"
  | InvalidObjective
  | TooFewCategories string
  | InvalidRange string
  | ConfigError
  | SuggestError
  | ResumeError

text \<open>An exception the host raises and no handler catches.\<close>

datatype js_error = RangeError | TypeError

record app =
  parameters :: "parameter list"
  direction :: direction
  history :: "trial list"
  phase :: phase
  manualTrials :: "trial list"
  currentTrialIndex :: nat
  trialCount :: jsnum
  savedConfig :: "config option"
  optimizer :: "optimizer option"
  categoryMaps :: "string \<rightharpoonup> string list"
  isOptimizing :: bool
  numericParams :: "jsnum list option"
  currentIter :: nat
  totalIter :: nat
  error :: message
  storage :: "stored option"
  rng :: rng
  objects :: "nat \<Rightarrow> (string \<times> string) list"
  allocated :: nat

text \<open>
  The initial values of the state hooks; the second default parameter has a
  two-character Chinese name, written in its UTF-8 bytes.
\<close>

definition initial_app :: "stored option \<Rightarrow> rng \<Rightarrow> app" where
  "initial_app st g =
     \<lparr>parameters =
        [\<lparr>name = ''temperature10x'', ptype = Continuous, range_text = ''0-10''\<rparr>,
         \<lparr>name = [CHR 0xE5, CHR 0x8E, CHR 0x8B, CHR 0xE5, CHR 0x8A, CHR 0x9B],
          ptype = Categorical, range_text = ''a,b,c''\<rparr>],
      direction = Minimize, history = [], phase = Setup, manualTrials = [],
      currentTrialIndex = 0, trialCount = Fin 3, savedConfig = None, optimizer = None,
      categoryMaps = Map.empty, isOptimizing = False, numericParams = None,
      currentIter = 0, totalIter = 0, error = NoMessage, storage = st, rng = g,
      objects = (\<lambda>a. []), allocated = 0\<rparr>"

text \<open>
  The creation of one new object for each of the given lists of entries: they take
  the addresses from \<open>allocated\<close> on, in order.
\<close>

definition new_objects :: "(string \<times> string) list list \<Rightarrow> app \<Rightarrow> app" where
  "new_objects os s =
     s\<lparr>objects := (\<lambda>a. if allocated s \<le> a \<and> a < allocated s + length os
                         then os ! (a - allocated s) else objects s a),
       allocated := allocated s + length os\<rparr>"

text \<open>\<open>JSON.stringify\<close> of a list of trials, and the trials \<open>JSON.parse\<close> makes of it
  with their objects at the addresses from a on.\<close>

definition stringify :: "(nat \<Rightarrow> (string \<times> string) list) \<Rightarrow> trial list \<Rightarrow> saved_trial list" where
  "stringify objs ts =
     map (\<lambda>t. \<lparr>saved_params = objs (trial_params t), saved_value = trial_value t\<rparr>) ts"

definition parsed :: "nat \<Rightarrow> saved_trial list \<Rightarrow> trial list" where
  "parsed a items =
     map (\<lambda>i. \<lparr>trial_params = a + i, trial_value = saved_value (items ! i)\<rparr>) [0..<length items]"

definition saveToStorage :: "stored \<Rightarrow> app \<Rightarrow> app" where
  "saveToStorage d s = s\<lparr>storage := Some d\<rparr>"

definition loadFromStorage :: "app \<Rightarrow> app" where
  "loadFromStorage s =
     (case storage s of
        None \<Rightarrow> s
      | Some d \<Rightarrow>
          (let s1 = (new_objects (map saved_params (st_history d)) s)
                      \<lparr>history := parsed (allocated s) (st_history d),
                       savedConfig := st_config d\<rparr>
           in if st_phase d = Optimization then s1\<lparr>phase := Setup\<rparr> else s1))"

subsection \<open>startManualInput\<close>

definition validParameters :: "parameter list \<Rightarrow> parameter list" where
  "validParameters ps =
     filter (\<lambda>param. trim (name param) \<noteq> [] \<and> trim (range_text param) \<noteq> []) ps"

text \<open>
  \<open>Array(n)\<close>: the length must be an integer from 0 to 2^32 - 1, otherwise the
  constructor raises a RangeError.
\<close>

definition array_length :: "jsnum \<Rightarrow> nat option" where
  "array_length n =
     (case n of
        Fin r \<Rightarrow> if r = of_int \<lfloor>r\<rfloor> \<and> 0 \<le> r \<and> r < 2 ^ 32 then Some (nat \<lfloor>r\<rfloor>) else None
      | _ \<Rightarrow> None)"

definition startManualInput :: "app \<Rightarrow> js_error option \<times> app" where
  "startManualInput s =
     (let s1 = s\<lparr>error := NoMessage\<rparr>;
          valid = validParameters (parameters s)
      in if length valid = 0 then (None, s1\<lparr>error := NeedValidParameter\<rparr>)
         else if jlt (trialCount s) (Fin 3) \<or> jgt (trialCount s) (Fin 10)
         then (None, s1\<lparr>error := TrialCountOutOfRange\<rparr>)
         else (case array_length (trialCount s) of
                 None \<Rightarrow> (Some RangeError, s1)
               | Some n \<Rightarrow>
                   (None,
                    (new_objects
                       (replicate n (fromEntries (map (\<lambda>param. (trim (name param), [])) valid)))
                       s1)
                      \<lparr>manualTrials :=
                         map (\<lambda>i. \<lparr>trial_params = allocated s + i, trial_value = []\<rparr>) [0..<n],
                       phase := Manual,
                       currentTrialIndex := 0\<rparr>)))"

subsection \<open>Editing a manual trial\<close>

text \<open>
  \<open>value.replace(/[^\d]/g, '')\<close> and \<open>value.replace(/[^\d.]/g, '')\<close>.
\<close>

definition digits_only :: "string \<Rightarrow> string" where
  "digits_only v = filter isDigit v"

definition digits_and_dots :: "string \<Rightarrow> string" where
  "digits_and_dots v = filter (\<lambda>c. isDigit c \<or> c = CHR ''.'') v"

definition handleManualParamChange ::
  "nat \<Rightarrow> string \<Rightarrow> string \<Rightarrow> app \<Rightarrow> js_error option \<times> app" where
  "handleManualParamChange trialIndex paramName v s =
     (let paramConfig = find (\<lambda>p. trim (name p) = paramName) (parameters s);
          v1 = (case paramConfig of
                  Some p \<Rightarrow>
                    if ptype p = Integer then digits_only v
                    else if ptype p = Continuous then digits_and_dots v
                    else v
                | None \<Rightarrow> v)
      in if trialIndex < length (manualTrials s)
         then (None,
               s\<lparr>objects :=
                    (objects s)
                      (trial_params (manualTrials s ! trialIndex) :=
                         assign paramName v1
                           (objects s (trial_params (manualTrials s ! trialIndex))))\<rparr>)
         else (Some TypeError, s))"

definition handleManualValueChange :: "nat \<Rightarrow> string \<Rightarrow> app \<Rightarrow> js_error option \<times> app" where
  "handleManualValueChange trialIndex v s =
     (if trialIndex < length (manualTrials s)
      then (None,
            s\<lparr>manualTrials :=
                 (manualTrials s)
                   [trialIndex := (manualTrials s ! trialIndex)\<lparr>trial_value := digits_and_dots v\<rparr>]\<rparr>)
      else (Some TypeError, s))"

subsection \<open>Encoding a trial\<close>

text \<open>
  The body of \<open>parameters.forEach\<close> for one named parameter.  A categorical value
  is the index of its label, or 0 when the label is not a category; any other value
  is \<open>parseFloat(...) || 0\<close>.  Reading \<open>categories\<close> of a name without an entry in
  the category maps raises a TypeError.
\<close>

definition encodeCategorical :: "string list \<Rightarrow> string option \<Rightarrow> jsnum" where
  "encodeCategorical categories raw =
     (case indexOf categories raw of Some index \<Rightarrow> Fin (real index) | None \<Rightarrow> Fin 0)"

definition encodeParam ::
  "(string \<rightharpoonup> string list) \<Rightarrow> (nat \<Rightarrow> (string \<times> string) list) \<Rightarrow> trial \<Rightarrow> parameter \<Rightarrow>
   js_error + jsnum" where
  "encodeParam maps objs t param =
     (let nm = trim (name param)
      in if ptype param = Categorical
         then (case maps nm of
                 None \<Rightarrow> Inl TypeError
               | Some categories \<Rightarrow>
                   Inr (encodeCategorical categories (map_of (objs (trial_params t)) nm)))
         else Inr (or_zero (parseFloat_of (map_of (objs (trial_params t)) nm))))"

fun encodeParams ::
  "parameter list \<Rightarrow> (string \<rightharpoonup> string list) \<Rightarrow> (nat \<Rightarrow> (string \<times> string) list) \<Rightarrow> trial \<Rightarrow>
   js_error + jsnum list" where
  "encodeParams [] maps objs t = Inr []"
| "encodeParams (param # rest) maps objs t =
     (if trim (name param) = [] then encodeParams rest maps objs t
      else (case encodeParam maps objs t param of
              Inl e \<Rightarrow> Inl e
            | Inr x \<Rightarrow>
                (case encodeParams rest maps objs t of
                   Inl e \<Rightarrow> Inl e
                 | Inr xs \<Rightarrow> Inr (x # xs))))"

text \<open>
  The loop that registers every trial with the optimizer:
  \<open>bayesOpt.addObservation(numericParams, parseFloat(trial.value))\<close>.
\<close>

fun addTrials ::
  "parameter list \<Rightarrow> (string \<rightharpoonup> string list) \<Rightarrow> (nat \<Rightarrow> (string \<times> string) list) \<Rightarrow>
   trial list \<Rightarrow> optimizer \<Rightarrow> js_error + optimizer" where
  "addTrials ps maps objs [] bayesOpt = Inr bayesOpt"
| "addTrials ps maps objs (t # ts) bayesOpt =
     (case encodeParams ps maps objs t of
        Inl e \<Rightarrow> Inl e
      | Inr numeric \<Rightarrow>
          addTrials ps maps objs ts
            (addObservation numeric (parseFloat (trial_value t)) bayesOpt))"

subsection \<open>The encoder of the variant that registers with a remote provider\<close>

text \<open>
  A value of the record sent to the provider: a number, a string, or \<open>undefined\<close>.
\<close>

datatype jsval = Num jsnum | Str string | Undefined

text \<open>
  For one categorical parameter: the index of the label when it is a category,
  otherwise \<open>parseFloat(raw) || raw\<close>.
\<close>

definition remoteCategorical :: "string list \<Rightarrow> string option \<Rightarrow> jsval" where
  "remoteCategorical categories raw =
     (case indexOf categories raw of
        Some categoryIndex \<Rightarrow> Num (Fin (real categoryIndex))
      | None \<Rightarrow>
          (if parseFloat_of raw = NaN \<or> parseFloat_of raw = Fin 0
           then (case raw of None \<Rightarrow> Undefined | Some s \<Rightarrow> Str s)
           else Num (parseFloat_of raw)))"

text \<open>
  The pass over every key: a string that parses as a number is replaced by the number.
\<close>

definition remoteEnsureNumeric :: "jsval \<Rightarrow> jsval" where
  "remoteEnsureNumeric v =
     (case v of
        Str s \<Rightarrow> if parseFloat s \<noteq> NaN then Num (parseFloat s) else Str s
      | _ \<Rightarrow> v)"

definition remoteEncodeCategorical :: "string list \<Rightarrow> string option \<Rightarrow> jsval" where
  "remoteEncodeCategorical categories raw = remoteEnsureNumeric (remoteCategorical categories raw)"

subsection \<open>startOptimization and the first suggestion\<close>

text \<open>
  Whether the conversion of a suggestion for display raises a TypeError: a
  categorical parameter without categories, or a continuous parameter whose position
  in the parameter list is past the end of the suggested vector.
\<close>

definition display_throws ::
  "parameter list \<Rightarrow> (string \<rightharpoonup> string list) \<Rightarrow> jsnum list \<Rightarrow> bool" where
  "display_throws ps maps nextParams =
     list_ex
       (\<lambda>(index, param).
          trim (name param) \<noteq> [] \<and>
          ((ptype param = Categorical \<and> maps (trim (name param)) = None) \<or>
           (ptype param = Continuous \<and> length nextParams \<le> index)))
       (zip [0..<length ps] ps)"

text \<open>
  fetchNextSuggest: ps is the parameter list of the render, s the state being
  written.
\<close>

definition fetchNextSuggest ::
  "parameter list \<Rightarrow> optimizer \<Rightarrow> (string \<rightharpoonup> string list) \<Rightarrow> app \<Rightarrow> app" where
  "fetchNextSuggest ps bayesOpt maps s =
     (let (nextParams, g) = suggest bayesOpt (rng s);
          s1 = s\<lparr>numericParams := Some nextParams, rng := g\<rparr>
      in if display_throws ps maps nextParams
         then s1\<lparr>error := SuggestError, isOptimizing := False\<rparr>
         else s1)"

definition not_quote :: "char \<Rightarrow> bool" where
  "not_quote c = (c \<noteq> CHR 0x27 \<and> c \<noteq> CHR 0x22)"

definition not_bracket :: "char \<Rightarrow> bool" where
  "not_bracket c = (c \<noteq> CHR 0x5B \<and> c \<noteq> CHR 0x5D)"

definition range_separator :: "char \<Rightarrow> bool" where
  "range_separator c = (c = CHR ''-'' \<or> c = CHR '','' \<or> c = CHR '' '')"

definition categories_of :: "parameter \<Rightarrow> string list" where
  "categories_of param =
     map (\<lambda>s. filter not_quote (trim s)) (split_char (CHR '','') (trim (range_text param)))"

definition parsedRange_of :: "parameter \<Rightarrow> jsnum list" where
  "parsedRange_of param =
     map Number (split_runs range_separator (filter not_bracket (trim (range_text param))))"

text \<open>
  The first loop of startOptimization, with its two early returns: the message, or
  the category maps and the bounds.
\<close>

fun build_bounds ::
  "parameter list \<Rightarrow> (string \<rightharpoonup> string list) \<Rightarrow> (jsnum \<times> jsnum) list \<Rightarrow>
   message + ((string \<rightharpoonup> string list) \<times> (jsnum \<times> jsnum) list)" where
  "build_bounds [] localCategoryMaps bs = Inr (localCategoryMaps, bs)"
| "build_bounds (param # rest) localCategoryMaps bs =
     (if trim (name param) = [] then build_bounds rest localCategoryMaps bs
      else if ptype param = Categorical
      then (if length (categories_of param) < 2
            then Inl (TooFewCategories (trim (name param)))
            else build_bounds rest
                   (localCategoryMaps(trim (name param) \<mapsto> categories_of param))
                   (bs @ [(Fin 0, Fin (real (length (categories_of param)) - 1))]))
      else (if length (parsedRange_of param) \<noteq> 2 \<or>
               at_index (parsedRange_of param) 0 = NaN \<or>
               at_index (parsedRange_of param) 1 = NaN
            then Inl (InvalidRange (trim (name param)))
            else build_bounds rest localCategoryMaps
                   (bs @ [(at_index (parsedRange_of param) 0, at_index (parsedRange_of param) 1)])))"

text \<open>
  startOptimization: s is the state of the render, w the state being written; the
  objects, like the storage and the generator, are read where they are written.
\<close>

definition startOptimization :: "app \<Rightarrow> app \<Rightarrow> app" where
  "startOptimization s w =
     (let w1 = w\<lparr>error := NoMessage\<rparr>
      in case build_bounds (parameters s) Map.empty [] of
           Inl msg \<Rightarrow> w1\<lparr>error := msg\<rparr>
         | Inr (localCategoryMaps, bs) \<Rightarrow>
             (let w2 = w1\<lparr>categoryMaps := localCategoryMaps\<rparr>
              in case addTrials (parameters s) localCategoryMaps (objects w) (manualTrials s)
                        (constructor bs (direction s = Maximize)) of
                   Inl e \<Rightarrow> w2\<lparr>error := ConfigError\<rparr>
                 | Inr bayesOpt \<Rightarrow>
                     fetchNextSuggest (parameters s) bayesOpt localCategoryMaps
                       (saveToStorage
                          \<lparr>st_history = stringify (objects w) (history s),
                           st_phase = Optimization,
                           st_config =
                             Some \<lparr>cfg_parameters = parameters s, cfg_direction = direction s,
                                   cfg_trialCount = trialCount s\<rparr>\<rparr>
                          (w2\<lparr>optimizer := Some bayesOpt,
                              isOptimizing := True,
                              phase := Optimization,
                              currentIter := length (manualTrials s) + 1,
                              totalIter := length (manualTrials s) + 30\<rparr>))))"

subsection \<open>submitManualTrial\<close>

definition submitManualTrial :: "app \<Rightarrow> js_error option \<times> app" where
  "submitManualTrial s =
     (if length (manualTrials s) \<le> currentTrialIndex s then (Some TypeError, s)
      else
        (let currentTrial = manualTrials s ! currentTrialIndex s;
             emptyParams =
               map fst (filter (\<lambda>(key, v). v = []) (objects s (trial_params currentTrial)))
         in if 0 < length emptyParams then (None, s\<lparr>error := FillParameters emptyParams\<rparr>)
            else if trial_value currentTrial = [] \<or> parseFloat (trial_value currentTrial) = NaN
            then (None, s\<lparr>error := InvalidObjective\<rparr>)
            else
              (let newHistory = history s @ [currentTrial];
                   w = saveToStorage
                         \<lparr>st_history = stringify (objects s) newHistory, st_phase = Manual,
                          st_config =
                            Some \<lparr>cfg_parameters = parameters s, cfg_direction = direction s,
                                  cfg_trialCount = trialCount s\<rparr>\<rparr>
                         (s\<lparr>history := newHistory\<rparr>)
               in if jlt (Fin (real (currentTrialIndex s))) (jsub (trialCount s) (Fin 1))
                  then (None, w\<lparr>currentTrialIndex := currentTrialIndex s + 1, error := NoMessage\<rparr>)
                  else (None, startOptimization s w))))"

subsection \<open>resumeOptimization\<close>

text \<open>The loop of resumeOptimization that rebuilds the bounds; it validates nothing.\<close>

fun resume_bounds ::
  "parameter list \<Rightarrow> (string \<rightharpoonup> string list) \<Rightarrow> (jsnum \<times> jsnum) list \<Rightarrow>
   (string \<rightharpoonup> string list) \<times> (jsnum \<times> jsnum) list" where
  "resume_bounds [] localCategoryMaps bs = (localCategoryMaps, bs)"
| "resume_bounds (param # rest) localCategoryMaps bs =
     (if trim (name param) = [] then resume_bounds rest localCategoryMaps bs
      else if ptype param = Categorical
      then resume_bounds rest
             (localCategoryMaps(trim (name param) \<mapsto> categories_of param))
             (bs @ [(Fin 0, Fin (real (length (categories_of param)) - 1))])
      else resume_bounds rest localCategoryMaps
             (bs @ [(at_index (parsedRange_of param) 0, at_index (parsedRange_of param) 1)]))"

definition resumeOptimization :: "app \<Rightarrow> app" where
  "resumeOptimization s =
     (case savedConfig s of
        None \<Rightarrow> s
      | Some cfg \<Rightarrow>
          (let w = s\<lparr>parameters := cfg_parameters cfg,
                     direction := cfg_direction cfg,
                     trialCount := cfg_trialCount cfg,
                     phase := Optimization,
                     isOptimizing := True,
                     currentIter := length (history s) + 1,
                     totalIter := length (history s) + 30\<rparr>;
               (localCategoryMaps, bs) = resume_bounds (cfg_parameters cfg) Map.empty [];
               w1 = w\<lparr>categoryMaps := localCategoryMaps\<rparr>
           in case addTrials (cfg_parameters cfg) localCategoryMaps (objects s) (history s)
                     (constructor bs (cfg_direction cfg = Maximize)) of
                Inl e \<Rightarrow> w1\<lparr>error := ResumeError\<rparr>
              | Inr bayesOpt \<Rightarrow>
                  fetchNextSuggest (parameters s) bayesOpt localCategoryMaps
                    (w1\<lparr>optimizer := Some bayesOpt\<rparr>)))"

subsection \<open>What the user can do\<close>

text \<open>
  The actions of the user on the handlers above, each with the condition under which
  the page renders its control: the setup form in the setup phase, the resume banner
  in the setup phase with a saved configuration, the trial form in the manual phase.
  Reloading the page starts from the initial state, without the objects of the page
  before, and reads the storage.  An action
  the page does not offer leaves the state as it is.
\<close>

datatype action =
    SetTrialCount jsnum
  | StartManualInput
  | EditParam string string
  | EditValue string
  | GoToTrial nat
  | SubmitManualTrial
  | Resume
  | Reload

definition step :: "action \<Rightarrow> app \<Rightarrow> app" where
  "step a s =
     (case a of
        SetTrialCount n \<Rightarrow> if phase s = Setup then s\<lparr>trialCount := n\<rparr> else s
      | StartManualInput \<Rightarrow> if phase s = Setup then snd (startManualInput s) else s
      | EditParam paramName v \<Rightarrow>
          if phase s = Manual
          then snd (handleManualParamChange (currentTrialIndex s) paramName v s) else s
      | EditValue v \<Rightarrow>
          if phase s = Manual then snd (handleManualValueChange (currentTrialIndex s) v s) else s
      | GoToTrial i \<Rightarrow>
          if phase s = Manual \<and>
             ((jgt (trialCount s) (Fin 1) \<and> jlt (Fin (real i)) (trialCount s)) \<or>
              i + 1 = currentTrialIndex s)
          then s\<lparr>currentTrialIndex := i\<rparr> else s
      | SubmitManualTrial \<Rightarrow> if phase s = Manual then snd (submitManualTrial s) else s
      | Resume \<Rightarrow> if phase s = Setup \<and> savedConfig s \<noteq> None then resumeOptimization s else s
      | Reload \<Rightarrow> loadFromStorage (initial_app (storage s) (rng s)))"

definition run :: "action list \<Rightarrow> app \<Rightarrow> app" where
  "run as s = fold step as s"

section \<open>Notions used to state the properties\<close>

text \<open>
  \<open>better mx a b\<close>: the replacement test both scans of the source share, a strictly
  above b when maximizing and strictly below it when minimizing.
\<close>

definition better :: "bool \<Rightarrow> jsnum \<Rightarrow> jsnum \<Rightarrow> bool" where
  "better mx a b = ((mx \<and> jgt a b) \<or> (\<not> mx \<and> jlt a b))"















text \<open>A categorical parameter with a name.\<close>

definition named_categorical :: "parameter \<Rightarrow> bool" where
  "named_categorical p = (trim (name p) \<noteq> [] \<and> ptype p = Categorical)"

text \<open>
  \<open>first_number mx vs n k\<close>: among the first n entries of vs, entry k is a number
  that no entry beats, and every entry before it is NaN or beaten by it.
\<close>

definition first_number :: "bool \<Rightarrow> jsnum list \<Rightarrow> nat \<Rightarrow> nat \<Rightarrow> bool" where
  "first_number mx vs n k =
     (k < n \<and> vs ! k \<noteq> NaN \<and> (\<forall>j<n. \<not> better mx (vs ! j) (vs ! k)) \<and>
      (\<forall>j<k. vs ! j = NaN \<or> better mx (vs ! k) (vs ! j)))"



text \<open>A string that is a sequence of the given forms.\<close>

inductive made_of :: "string list \<Rightarrow> string \<Rightarrow> bool" for forms where
  made_of_Nil: "made_of forms []"
| made_of_Cons: "w \<in> set forms \<Longrightarrow> made_of forms s \<Longrightarrow> made_of forms (w @ s)"

text \<open>A blank string consists of white space only.\<close>

definition blank :: "string \<Rightarrow> bool" where
  "blank s = made_of white_space s"

text \<open>Some parameter has a name and a range text that are not blank.\<close>

definition filled :: "parameter list \<Rightarrow> bool" where
  "filled ps = (\<exists>p \<in> set ps. \<not> blank (name p) \<and> \<not> blank (range_text p))"

text \<open>A maximizing log of four observations; the maximum 7 is recorded twice.\<close>

definition example_log :: optimizer where
  "example_log = addObservation [Fin 4] (Fin 1) (addObservation [Fin 3] (Fin 7)
     (addObservation [Fin 2] (Fin 7) (addObservation [Fin 1] (Fin 3)
       (constructor [(Fin 0, Fin 10)] True))))"


text \<open>A generator whose second draw is 0.9 and every other draw 0.5.\<close>

definition spike_rng :: rng where
  "spike_rng = \<lparr>draws = (\<lambda>n. if n = 1 then 9 / 10 else 1 / 2), used = 0\<rparr>"

text \<open>The page as first loaded, with nothing in storage: the two default parameters and a trial count of 3.\<close>

definition fresh_page :: app where
  "fresh_page = initial_app None spike_rng"

text \<open>The name of the second default parameter.\<close>

definition pressure :: string where
  "pressure = [CHR 0xE5, CHR 0x8E, CHR 0x8B, CHR 0xE5, CHR 0x8A, CHR 0x9B]"

text \<open>Filling in and submitting one manual trial.\<close>

definition one_trial :: "action list" where
  "one_trial = [EditParam ''temperature10x'' ''5'', EditParam pressure ''a'',
                EditValue ''1.5'', SubmitManualTrial]"

text \<open>
  A page whose parameters each have a blank name or a blank range text: two spaces,
  an ideographic space U+3000, and a no-break space U+00A0 followed by a tab.
\<close>

definition blank_names_page :: app where
  "blank_names_page =
     fresh_page\<lparr>parameters :=
       [\<lparr>name = ''  '', ptype = Continuous, range_text = ''0-10''\<rparr>,
        \<lparr>name = [CHR 0xE3, CHR 0x80, CHR 0x80], ptype = Categorical, range_text = ''a,b''\<rparr>,
        \<lparr>name = ''x'', ptype = Continuous, range_text = [CHR 0xC2, CHR 0xA0, CHR 0x09]\<rparr>]\<rparr>"

text \<open>A page whose one parameter has a range text that gives no bounds.\<close>

definition unbounded_page :: app where
  "unbounded_page =
     fresh_page\<lparr>parameters := [\<lparr>name = ''x'', ptype = Continuous, range_text = ''abc''\<rparr>]\<rparr>"

text \<open>
  Starting the manual phase, going to the last of the three trials with the
  navigation buttons, filling it in and submitting it: the first two trials stay empty.
\<close>

definition skip_to_last :: "action list" where
  "skip_to_last = StartManualInput # GoToTrial 2 # one_trial"

text \<open>
  A minimizing log of three observations on two dimensions; the first two values
  are NaN.
\<close>

definition nan_log :: optimizer where
  "nan_log = addObservation [Fin 5, Fin 0] (Fin (3 / 2)) (addObservation [Fin 0, Fin 0] NaN
     (addObservation [Fin 0, Fin 0] NaN
       (constructor [(Fin 0, Fin 10), (Fin 0, Fin 2)] False)))"

text \<open>A maximizing log of three observations; the second value is NaN.\<close>

definition gap_log :: optimizer where
  "gap_log = addObservation [Fin 3] (Fin 4) (addObservation [Fin 2] NaN
     (addObservation [Fin 1] (Fin 2) (constructor [(Fin 0, Fin 10)] True)))"

section \<open>The order of numbers\<close>

lemma jlt_irrefl: "\<not> jlt a a"
  by (cases a) auto

lemma jlt_trans: "jlt a b \<Longrightarrow> jlt b c \<Longrightarrow> jlt a c"
  by (cases a; cases b; cases c) auto

lemma jlt_asym: "jlt a b \<Longrightarrow> \<not> jlt b a"
  by (cases a; cases b) auto

lemma jlt_total: "a \<noteq> NaN \<Longrightarrow> b \<noteq> NaN \<Longrightarrow> jlt a b \<or> a = b \<or> jlt b a"
  by (cases a; cases b) auto

lemma jle_iff_not_jlt: "a \<noteq> NaN \<Longrightarrow> b \<noteq> NaN \<Longrightarrow> jle a b \<longleftrightarrow> \<not> jlt b a"
  unfolding jle_def by (cases a; cases b) auto

lemma better_irrefl: "\<not> better mx a a"
  by (simp add: better_def jgt_def jlt_irrefl)

lemma better_trans: "better mx a b \<Longrightarrow> better mx b c \<Longrightarrow> better mx a c"
  unfolding better_def jgt_def by (meson jlt_trans)

lemma better_total: "a \<noteq> NaN \<Longrightarrow> b \<noteq> NaN \<Longrightarrow> better mx a b \<or> a = b \<or> better mx b a"
  unfolding better_def jgt_def using jlt_total[of a b] by auto


lemma jlt_not_NaN: "jlt a b \<Longrightarrow> a \<noteq> NaN \<and> b \<noteq> NaN"
  by (cases a; cases b) auto

lemma jlt_NaN_right: "\<not> jlt a NaN"
  by (cases a) auto

lemma better_not_NaN: "better mx a b \<Longrightarrow> a \<noteq> NaN \<and> b \<noteq> NaN"
  unfolding better_def jgt_def using jlt_not_NaN by blast


lemma first_number_step:
  assumes i: "i < length vs"
    and fb: "first_number mx vs i b"
  shows "first_number mx vs (i + 1) (if better mx (vs ! i) (vs ! b) then i else b)"
proof (cases "better mx (vs ! i) (vs ! b)")
  case False
  then show ?thesis using fb by (auto simp: first_number_def less_Suc_eq)
next
  case True
  from fb have b: "b < i" and nb: "vs ! b \<noteq> NaN"
    and ub: "\<forall>j<i. \<not> better mx (vs ! j) (vs ! b)"
    by (auto simp: first_number_def)
  from True have ni: "vs ! i \<noteq> NaN" using better_not_NaN by blast
  have 1: "\<not> better mx (vs ! j) (vs ! i)" if "j < i + 1" for j
  proof (cases "j = i")
    case True then show ?thesis by (simp add: better_irrefl)
  next
    case False
    with that have "j < i" by simp
    with ub have "\<not> better mx (vs ! j) (vs ! b)" by simp
    then show ?thesis using True better_trans by blast
  qed
  have 2: "vs ! j = NaN \<or> better mx (vs ! i) (vs ! j)" if "j < i" for j
  proof (cases "vs ! j = NaN")
    case True then show ?thesis by simp
  next
    case False
    from that ub have n: "\<not> better mx (vs ! j) (vs ! b)" by simp
    from False nb consider "vs ! j = vs ! b" | "better mx (vs ! b) (vs ! j)"
      using better_total n by blast
    then show ?thesis using True better_trans by cases auto
  qed
  show ?thesis using True 1 2 ni by (simp add: first_number_def)
qed

lemma first_number_single: "vs ! 0 \<noteq> NaN \<Longrightarrow> first_number mx vs (Suc 0) 0"
  by (simp add: first_number_def better_irrefl)

lemma first_number_orders:
  assumes "first_number mx vs n k"
  shows "\<forall>j<n. vs ! j \<noteq> NaN \<longrightarrow> (if mx then jle (vs ! j) (vs ! k) else jle (vs ! k) (vs ! j))"
    and "\<forall>j<k. vs ! j \<noteq> NaN \<longrightarrow> (if mx then jlt (vs ! j) (vs ! k) else jlt (vs ! k) (vs ! j))"
proof -
  from assms have nk: "vs ! k \<noteq> NaN" by (simp add: first_number_def)
  show "\<forall>j<n. vs ! j \<noteq> NaN \<longrightarrow> (if mx then jle (vs ! j) (vs ! k) else jle (vs ! k) (vs ! j))"
  proof (intro allI impI)
    fix j assume j: "j < n" and nj: "vs ! j \<noteq> NaN"
    with assms have "\<not> better mx (vs ! j) (vs ! k)" by (simp add: first_number_def)
    then show "if mx then jle (vs ! j) (vs ! k) else jle (vs ! k) (vs ! j)"
      using jle_iff_not_jlt[OF nj nk] jle_iff_not_jlt[OF nk nj]
      by (cases mx) (simp_all add: better_def jgt_def)
  qed
  show "\<forall>j<k. vs ! j \<noteq> NaN \<longrightarrow> (if mx then jlt (vs ! j) (vs ! k) else jlt (vs ! k) (vs ! j))"
    using assms by (cases mx) (auto simp: first_number_def better_def jgt_def)
qed


section \<open>The best-result scan\<close>



lemma best_loop_number:
  assumes "i \<le> length obs"
    and "first_number mx (map value_of obs) i b"
  shows "first_number mx (map value_of obs) (length obs) (best_loop obs mx i b)"
  using assms
proof (induction obs mx i b rule: best_loop.induct)
  case (1 obs mx i b)
  show ?case
  proof (cases "i < length obs")
    case False
    then have "best_loop obs mx i b = b"
      by (subst best_loop.simps) simp
    moreover from False "1.prems"(1) have "i = length obs" by simp
    ultimately show ?thesis using "1.prems"(2) by simp
  next
    case True
    let ?b' = "if (mx \<and> jgt (value_of (obs ! i)) (value_of (obs ! b))) \<or>
                 (\<not> mx \<and> jlt (value_of (obs ! i)) (value_of (obs ! b))) then i else b"
    from "1.prems"(2) have b: "b < i" by (simp add: first_number_def)
    have eq: "?b' = (if better mx (map value_of obs ! i) (map value_of obs ! b) then i else b)"
      using True b by (simp add: better_def)
    have "first_number mx (map value_of obs) (i + 1) ?b'"
      unfolding eq using "1.prems" True by (intro first_number_step) auto
    moreover have "best_loop obs mx i b = best_loop obs mx (i + 1) ?b'"
      using True by (subst best_loop.simps) simp
    ultimately show ?thesis using "1.IH"[OF True] True by simp
  qed
qed

lemma best_loop_NaN:
  "value_of (obs ! b) = NaN \<Longrightarrow> best_loop obs mx i b = b"
proof (induction obs mx i b rule: best_loop.induct)
  case (1 obs mx i b)
  show ?case
  proof (cases "i < length obs")
    case False
    then show ?thesis by (subst best_loop.simps) simp
  next
    case True
    have "best_loop obs mx i b = best_loop obs mx (i + 1) b"
      using True "1.prems" by (subst best_loop.simps) (simp add: jgt_def jlt_NaN_right)
    with "1.IH"[OF True] "1.prems" show ?thesis by (simp add: jgt_def jlt_NaN_right)
  qed
qed

lemma best_loop_bound: "b < length obs \<Longrightarrow> best_loop obs mx i b < length obs"
proof (induction obs mx i b rule: best_loop.induct)
  case (1 obs mx i b)
  show ?case
  proof (cases "i < length obs")
    case False
    then show ?thesis using "1.prems" by (subst best_loop.simps) simp
  next
    case True
    let ?b' = "if (mx \<and> jgt (value_of (obs ! i)) (value_of (obs ! b))) \<or>
                 (\<not> mx \<and> jlt (value_of (obs ! i)) (value_of (obs ! b))) then i else b"
    have "?b' < length obs" using True "1.prems" by simp
    from "1.IH"[OF True this] show ?thesis using True by (subst best_loop.simps) simp
  qed
qed

lemma best_loop_append:
  assumes "i \<le> length obs" and "b < length obs"
  shows "best_loop (obs @ [x]) mx i b =
     (if better mx (value_of x) (value_of (obs ! best_loop obs mx i b))
      then length obs else best_loop obs mx i b)"
  using assms
proof (induction obs mx i b rule: best_loop.induct)
  case (1 obs mx i b)
  show ?case
  proof (cases "i < length obs")
    case False
    with "1.prems" have i: "i = length obs" by simp
    have l: "best_loop obs mx i b = b" using False by (subst best_loop.simps) simp
    have "best_loop (obs @ [x]) mx i b =
          best_loop (obs @ [x]) mx (i + 1)
            (if better mx (value_of x) (value_of (obs ! b)) then i else b)"
      using i "1.prems"(2) by (subst best_loop.simps) (simp add: nth_append better_def)
    also have "\<dots> = (if better mx (value_of x) (value_of (obs ! b)) then i else b)"
      using i by (subst best_loop.simps) simp
    finally show ?thesis using l i by simp
  next
    case True
    let ?b' = "if (mx \<and> jgt (value_of (obs ! i)) (value_of (obs ! b))) \<or>
                 (\<not> mx \<and> jlt (value_of (obs ! i)) (value_of (obs ! b))) then i else b"
    have b': "?b' < length obs" using True "1.prems" by simp
    have l: "best_loop obs mx i b = best_loop obs mx (i + 1) ?b'"
      using True by (subst best_loop.simps) simp
    have "best_loop (obs @ [x]) mx i b = best_loop (obs @ [x]) mx (i + 1) ?b'"
      using True "1.prems"(2) by (subst best_loop.simps) (simp add: nth_append)
    also have "\<dots> = (if better mx (value_of x) (value_of (obs ! best_loop obs mx (i + 1) ?b'))
      then length obs else best_loop obs mx (i + 1) ?b')"
      using "1.IH"[OF True _ b'] True by simp
    finally show ?thesis using l by simp
  qed
qed


lemma example_log_obs: "observations example_log =
  [\<lparr>params = [Fin 1], value_of = Fin 3\<rparr>, \<lparr>params = [Fin 2], value_of = Fin 7\<rparr>,
   \<lparr>params = [Fin 3], value_of = Fin 7\<rparr>, \<lparr>params = [Fin 4], value_of = Fin 1\<rparr>]"
  by (simp add: example_log_def addObservation_def constructor_def)


text \<open>
  C3, as amended.  On a non-empty log getBestResult returns a logged observation k.
  When the first logged value is a number, the returned value is a number, no logged
  number is above it when maximizing (below it when minimizing), and every number
  logged before k is strictly worse: the value is the extremum of the logged numbers
  and the earliest observation attaining it wins.  When the first logged value is
  NaN, the first observation is returned whatever follows it.
\<close>

theorem getBestResult_extremum_earliest:
  assumes "observations opt \<noteq> []"
  shows "\<exists>k < length (observations opt).
     getBestResult opt = (Inr (observations opt ! k), opt) \<and>
     (value_of (observations opt ! 0) = NaN \<longrightarrow> k = 0) \<and>
     (value_of (observations opt ! 0) \<noteq> NaN \<longrightarrow>
        value_of (observations opt ! k) \<noteq> NaN \<and>
        (\<forall>j < length (observations opt). value_of (observations opt ! j) \<noteq> NaN \<longrightarrow>
           (if maximize opt
            then jle (value_of (observations opt ! j)) (value_of (observations opt ! k))
            else jle (value_of (observations opt ! k)) (value_of (observations opt ! j)))) \<and>
        (\<forall>j < k. value_of (observations opt ! j) \<noteq> NaN \<longrightarrow>
           (if maximize opt
            then jlt (value_of (observations opt ! j)) (value_of (observations opt ! k))
            else jlt (value_of (observations opt ! k)) (value_of (observations opt ! j)))))"
proof (cases "value_of (observations opt ! 0) = NaN")
  case True
  then have "best_loop (observations opt) (maximize opt) 1 0 = 0" by (rule best_loop_NaN)
  then show ?thesis using assms True by (simp add: getBestResult_def)
next
  case False
  let ?obs = "observations opt"
  let ?k = "best_loop ?obs (maximize opt) 1 0"
  have "first_number (maximize opt) (map value_of ?obs) (Suc 0) 0"
    using False assms by (intro first_number_single) simp
  then have fn: "first_number (maximize opt) (map value_of ?obs) (length ?obs) ?k"
    using assms by (intro best_loop_number) (simp_all add: Suc_le_eq)
  then have k: "?k < length ?obs" by (simp add: first_number_def)
  have r: "getBestResult opt = (Inr (?obs ! ?k), opt)"
    using assms by (simp add: getBestResult_def)
  from fn have "map value_of ?obs ! ?k \<noteq> NaN" unfolding first_number_def by blast
  with k have nk: "value_of (?obs ! ?k) \<noteq> NaN" by simp
  have a: "\<forall>j < length ?obs. value_of (?obs ! j) \<noteq> NaN \<longrightarrow>
           (if maximize opt then jle (value_of (?obs ! j)) (value_of (?obs ! ?k))
            else jle (value_of (?obs ! ?k)) (value_of (?obs ! j)))"
    using first_number_orders(1)[OF fn] k by (cases "maximize opt") auto
  have b: "\<forall>j < ?k. value_of (?obs ! j) \<noteq> NaN \<longrightarrow>
           (if maximize opt then jlt (value_of (?obs ! j)) (value_of (?obs ! ?k))
            else jlt (value_of (?obs ! ?k)) (value_of (?obs ! j)))"
    using first_number_orders(2)[OF fn] k by (cases "maximize opt") auto
  from k r nk a b False show ?thesis by blast
qed

lemma gap_log_obs: "observations gap_log =
  [\<lparr>params = [Fin 1], value_of = Fin 2\<rparr>, \<lparr>params = [Fin 2], value_of = NaN\<rparr>,
   \<lparr>params = [Fin 3], value_of = Fin 4\<rparr>]"
  "maximize gap_log"
  by (simp_all add: gap_log_def addObservation_def constructor_def)

theorem getBestResult_extremum_earliest_witness:
  "getBestResult example_log = (Inr \<lparr>params = [Fin 2], value_of = Fin 7\<rparr>, example_log) \<and>
   getBestResult gap_log = (Inr \<lparr>params = [Fin 3], value_of = Fin 4\<rparr>, gap_log)"
proof -
  have ne: "observations example_log \<noteq> []" by (simp add: example_log_obs)
  have v0: "value_of (observations example_log ! 0) \<noteq> NaN" by (simp add: example_log_obs)
  have mx: "maximize example_log"
    by (simp add: example_log_def addObservation_def constructor_def)
  have len: "length (observations example_log) = 4" by (simp add: example_log_obs)
  from getBestResult_extremum_earliest[OF ne] v0 obtain k where
    k: "k < 4" and r: "getBestResult example_log = (Inr (observations example_log ! k), example_log)"
    and ub: "\<forall>j < 4. value_of (observations example_log ! j) \<noteq> NaN \<longrightarrow>
       jle (value_of (observations example_log ! j)) (value_of (observations example_log ! k))"
    and first: "\<forall>j < k. value_of (observations example_log ! j) \<noteq> NaN \<longrightarrow>
       jlt (value_of (observations example_log ! j)) (value_of (observations example_log ! k))"
    unfolding len using mx by auto
  from k consider "k = 0" | "k = 1" | "k = 2" | "k = 3" by linarith
  then have "k = 1"
  proof cases
    case 1
    with ub[rule_format, of 1] show ?thesis by (simp add: example_log_obs jle_def)
  next
    case 2 then show ?thesis .
  next
    case 3
    with first[rule_format, of 1] show ?thesis by (simp add: example_log_obs)
  next
    case 4
    with ub[rule_format, of 1] show ?thesis by (simp add: example_log_obs jle_def)
  qed
  with r have a: "getBestResult example_log =
      (Inr \<lparr>params = [Fin 2], value_of = Fin 7\<rparr>, example_log)"
    by (simp add: example_log_obs)
  have ne': "observations gap_log \<noteq> []" by (simp add: gap_log_obs)
  have v0': "value_of (observations gap_log ! 0) \<noteq> NaN" by (simp add: gap_log_obs)
  have len': "length (observations gap_log) = 3" by (simp add: gap_log_obs)
  from getBestResult_extremum_earliest[OF ne'] v0' obtain m where
    m: "m < 3" and r': "getBestResult gap_log = (Inr (observations gap_log ! m), gap_log)"
    and nm: "value_of (observations gap_log ! m) \<noteq> NaN"
    and ub': "\<forall>j < 3. value_of (observations gap_log ! j) \<noteq> NaN \<longrightarrow>
       jle (value_of (observations gap_log ! j)) (value_of (observations gap_log ! m))"
    unfolding len' using gap_log_obs(2) by auto
  from m consider "m = 0" | "m = 1" | "m = 2" by linarith
  then have "m = 2"
  proof cases
    case 1
    with ub'[rule_format, of 2] show ?thesis by (simp add: gap_log_obs jle_def)
  next
    case 2
    with nm show ?thesis by (simp add: gap_log_obs)
  next
    case 3 then show ?thesis .
  qed
  with r' have b: "getBestResult gap_log =
      (Inr \<lparr>params = [Fin 3], value_of = Fin 4\<rparr>, gap_log)"
    by (simp add: gap_log_obs)
  from a b show ?thesis by simp
qed


text \<open>
  C10.  For every bounds matrix and direction flag, getBestResult on an optimizer with
  no observation returns the value with an empty parameter vector and the number 0,
  raises nothing, and leaves the optimizer as it was.
\<close>

theorem getBestResult_empty_placeholder:
  "getBestResult (constructor bs mx) =
     (Inr \<lparr>params = [], value_of = Fin 0\<rparr>, constructor bs mx)"
  by (simp add: getBestResult_def constructor_def)


text \<open>
  C4, as amended.  getBestResult never fails, on any log: it returns a value and the
  unchanged optimizer, and on an empty log the value is the placeholder with no
  parameters and the number 0.  The counterexample shows the request on an empty log
  returning that placeholder instead of failing with EmptyLog.
\<close>

theorem getBestResult_never_fails:
  "\<exists>r. getBestResult opt = (Inr r, opt) \<and>
        (observations opt = [] \<longrightarrow> r = \<lparr>params = [], value_of = Fin 0\<rparr>)"
  by (simp add: getBestResult_def)

theorem getBestResult_never_fails_witness:
  "observations (constructor [(Fin 0, Fin 10)] True) = [] \<and>
   getBestResult (constructor [(Fin 0, Fin 10)] True) =
     (Inr \<lparr>params = [], value_of = Fin 0\<rparr>, constructor [(Fin 0, Fin 10)] True)"
  using getBestResult_never_fails[of "constructor [(Fin 0, Fin 10)] True"]
  by (auto simp: constructor_def)

theorem getBestResult_empty_not_EmptyLog:
  "observations (constructor [(Fin 0, Fin 10)] False) = [] \<and>
   fst (getBestResult (constructor [(Fin 0, Fin 10)] False)) \<noteq> Inl EmptyLog \<and>
   fst (getBestResult (constructor [(Fin 0, Fin 10)] False)) =
     Inr \<lparr>params = [], value_of = Fin 0\<rparr>"
  by (simp add: getBestResult_def constructor_def)


text \<open>
  C9, as amended.  On a non-empty log, after one more observation is appended
  getBestResult returns the observation it returned before, or an observation whose
  value is strictly above the value returned before when maximizing and strictly below
  it when minimizing.  The counterexample starts from the empty log, where the
  placeholder value 0 is followed by the first logged value -5.
\<close>

theorem getBestResult_monotone:
  assumes "observations opt \<noteq> []"
  shows "\<exists>r r'. getBestResult opt = (Inr r, opt) \<and>
     getBestResult (addObservation ps v opt) = (Inr r', addObservation ps v opt) \<and>
     (r' = r \<or>
      (if maximize opt then jgt (value_of r') (value_of r) else jlt (value_of r') (value_of r)))"
proof -
  let ?obs = "observations opt"
  let ?x = "\<lparr>params = ps, value_of = v\<rparr>"
  let ?k = "best_loop ?obs (maximize opt) 1 0"
  let ?k' = "best_loop (?obs @ [?x]) (maximize opt) 1 0"
  have k: "?k < length ?obs" using assms by (intro best_loop_bound) simp
  have app: "?k' = (if better (maximize opt) v (value_of (?obs ! ?k)) then length ?obs else ?k)"
    using best_loop_append[of 1 ?obs 0 ?x "maximize opt"] assms
    by (simp add: Suc_le_eq)
  have r: "getBestResult opt = (Inr (?obs ! ?k), opt)"
    using assms by (simp add: getBestResult_def)
  have r': "getBestResult (addObservation ps v opt) =
     (Inr ((?obs @ [?x]) ! ?k'), addObservation ps v opt)"
    by (simp add: getBestResult_def addObservation_def)
  show ?thesis
  proof (cases "better (maximize opt) v (value_of (?obs ! ?k))")
    case True
    with app have "(?obs @ [?x]) ! ?k' = ?x" by simp
    with r r' True show ?thesis by (auto simp: better_def)
  next
    case False
    with app k have "(?obs @ [?x]) ! ?k' = ?obs ! ?k" by (simp add: nth_append)
    with r r' show ?thesis by simp
  qed
qed

theorem getBestResult_monotone_witness:
  "fst (getBestResult example_log) = Inr \<lparr>params = [Fin 2], value_of = Fin 7\<rparr> \<and>
   fst (getBestResult (addObservation [Fin 5] (Fin 9) example_log)) =
     Inr \<lparr>params = [Fin 5], value_of = Fin 9\<rparr> \<and>
   jgt (Fin 9) (Fin 7) \<and>
   fst (getBestResult (addObservation [Fin 6] NaN example_log)) =
     Inr \<lparr>params = [Fin 2], value_of = Fin 7\<rparr>"
proof -
  have ne: "observations example_log \<noteq> []" by (simp add: example_log_obs)
  have mx: "maximize example_log"
    by (simp add: example_log_def addObservation_def constructor_def)
  have a: "fst (getBestResult example_log) = Inr \<lparr>params = [Fin 2], value_of = Fin 7\<rparr>"
    by (simp add: getBestResult_def example_log_obs mx jgt_def best_loop.simps)
  have b: "fst (getBestResult (addObservation [Fin 5] (Fin 9) example_log)) =
     Inr \<lparr>params = [Fin 5], value_of = Fin 9\<rparr>"
    by (simp add: getBestResult_def addObservation_def example_log_obs mx jgt_def best_loop.simps)
  from getBestResult_monotone[OF ne, where ps = "[Fin 5]" and v = "Fin 9"] a b mx
  have c: "jgt (Fin 9) (Fin 7)" by auto
  have d: "fst (getBestResult (addObservation [Fin 6] NaN example_log)) =
     Inr \<lparr>params = [Fin 2], value_of = Fin 7\<rparr>"
    by (simp add: getBestResult_def addObservation_def example_log_obs mx jgt_def best_loop.simps)
  from a b c d show ?thesis by simp
qed

theorem getBestResult_not_monotone_from_empty:
  "maximize (constructor [(Fin 0, Fin 10)] True) \<and>
   fst (getBestResult (constructor [(Fin 0, Fin 10)] True)) =
     Inr \<lparr>params = [], value_of = Fin 0\<rparr> \<and>
   fst (getBestResult (addObservation [Fin 1] (Fin (- 5)) (constructor [(Fin 0, Fin 10)] True))) =
     Inr \<lparr>params = [Fin 1], value_of = Fin (- 5)\<rparr> \<and>
   \<not> jle (Fin 0) (Fin (- 5))"
  by (simp add: getBestResult_def addObservation_def constructor_def jle_def best_loop.simps)

section \<open>The acquisition score\<close>













section \<open>Sampling and the candidate scan\<close>




























lemma nan_log_fields:
  "observations nan_log =
     [\<lparr>params = [Fin 0, Fin 0], value_of = NaN\<rparr>, \<lparr>params = [Fin 0, Fin 0], value_of = NaN\<rparr>,
      \<lparr>params = [Fin 5, Fin 0], value_of = Fin (3 / 2)\<rparr>]"
  "bounds nan_log = [(Fin 0, Fin 10), (Fin 0, Fin 2)]"
  "\<not> maximize nan_log"
  by (simp_all add: nan_log_def addObservation_def constructor_def)
















section \<open>White space\<close>

lemma leading_form:
  assumes "0 < leading forms s"
  shows "\<exists>w \<in> set forms. s = w @ drop (leading forms s) s \<and> length w = leading forms s"
proof -
  from assms obtain w where f: "find (\<lambda>w. take (length w) s = w) forms = Some w"
    by (auto simp: leading_def split: option.splits)
  then have "w \<in> set forms" "take (length w) s = w"
    by (auto simp: find_Some_iff)
  moreover from f have "leading forms s = length w" by (simp add: leading_def)
  ultimately show ?thesis
    by (metis append_take_drop_id)
qed

lemma strip_Nil: "strip forms [] = []"
  by (simp add: strip.simps)

lemma strip_Cons:
  "strip forms (c # s) =
     (if leading forms (c # s) = 0 then c # s
      else strip forms (drop (leading forms (c # s)) (c # s)))"
  by (subst strip.simps) simp

lemma strip_made_of: "strip forms s = [] \<Longrightarrow> made_of forms s"
proof (induction forms s rule: strip.induct)
  case (1 forms s)
  show ?case
  proof (cases "leading forms s = 0 \<or> s = []")
    case True
    with "1.prems" have "s = []" by (subst (asm) strip.simps) simp
    then show ?thesis by (simp add: made_of_Nil)
  next
    case False
    with "1.prems" have "strip forms (drop (leading forms s) s) = []"
      by (subst (asm) strip.simps) simp
    from "1.IH"[OF False this] have m: "made_of forms (drop (leading forms s) s)" .
    from False leading_form[of forms s] obtain w where
      w: "w \<in> set forms" "s = w @ drop (leading forms s) s" by auto
    from made_of_Cons[OF w(1) m] w(2) show ?thesis by simp
  qed
qed

lemma strip_fixed: "leading forms (strip forms s) = 0 \<or> strip forms s = []"
proof (induction forms s rule: strip.induct)
  case (1 forms s)
  show ?case
  proof (cases "leading forms s = 0 \<or> s = []")
    case True
    then have "strip forms s = s" by (subst strip.simps) simp
    with True show ?thesis by auto
  next
    case False
    then have "strip forms s = strip forms (drop (leading forms s) s)"
      by (subst strip.simps) simp
    with "1.IH"[OF False] show ?thesis by simp
  qed
qed

lemma made_of_leading:
  assumes "made_of forms s" and "s \<noteq> []" and "[] \<notin> set forms"
  shows "0 < leading forms s"
  using assms
proof (cases rule: made_of.cases)
  case made_of_Nil
  with assms(2) show ?thesis by simp
next
  case (made_of_Cons w s')
  then have "\<exists>x \<in> set forms. take (length x) s = x"
    by (intro bexI[of _ w]) simp_all
  then obtain x where "find (\<lambda>w. take (length w) s = w) forms = Some x"
    by (cases "find (\<lambda>w. take (length w) s = w) forms") (auto simp: find_None_iff)
  moreover from this have "x \<in> set forms" by (auto simp: find_Some_iff)
  ultimately show ?thesis using assms(3) by (auto simp: leading_def)
qed

lemma made_of_append: "made_of forms a \<Longrightarrow> made_of forms b \<Longrightarrow> made_of forms (a @ b)"
proof (induction rule: made_of.induct)
  case made_of_Nil
  then show ?case by simp
next
  case (made_of_Cons w s)
  from made_of_Cons.hyps(1) made_of_Cons.IH[OF made_of_Cons.prems]
  have "made_of forms (w @ (s @ b))" by (rule made_of.made_of_Cons)
  then show ?case by simp
qed

lemma made_of_rev: "made_of forms s \<Longrightarrow> made_of (map rev forms) (rev s)"
proof (induction rule: made_of.induct)
  case made_of_Nil
  then show ?case by (simp add: made_of.made_of_Nil)
next
  case (made_of_Cons w s)
  have "made_of (map rev forms) (rev w @ [])"
    using made_of_Cons.hyps(1) by (intro made_of.made_of_Cons made_of.made_of_Nil) simp
  with made_of_Cons.IH have "made_of (map rev forms) (rev s @ rev w)"
    by (intro made_of_append) simp_all
  then show ?case by simp
qed

lemma made_of_rev_iff: "made_of (map rev forms) (rev s) \<longleftrightarrow> made_of forms s"
proof
  assume "made_of (map rev forms) (rev s)"
  from made_of_rev[OF this] show "made_of forms s" by (simp add: comp_def)
qed (rule made_of_rev)

lemma leading_white_space:
  "w \<in> set white_space \<Longrightarrow> leading white_space (w @ s) = length w"
  apply (simp only: white_space_def list.set insert_iff empty_iff)
  apply (elim disjE)
  apply (simp_all add: leading_def)
  done

lemma blank_strip: "made_of white_space s \<Longrightarrow> strip white_space s = []"
proof (induction rule: made_of.induct)
  case made_of_Nil
  then show ?case by (simp add: strip_Nil)
next
  case (made_of_Cons w s)
  from made_of_Cons.hyps(1) have "w \<noteq> []" by (auto simp: white_space_def)
  with leading_white_space[OF made_of_Cons.hyps(1), of s]
  have "strip white_space (w @ s) = strip white_space s"
    by (subst strip.simps) simp
  with made_of_Cons.IH show ?case by simp
qed

lemma trim_blank: "trim s = [] \<longleftrightarrow> blank s"
proof
  assume "blank s"
  then have "strip white_space s = []" unfolding blank_def by (rule blank_strip)
  then show "trim s = []" by (simp add: trim_def strip_Nil)
next
  assume "trim s = []"
  let ?t = "strip white_space s"
  from \<open>trim s = []\<close> have "strip (map rev white_space) (rev ?t) = []"
    by (simp add: trim_def)
  then have "made_of (map rev white_space) (rev ?t)" by (rule strip_made_of)
  then have m: "made_of white_space ?t" by (simp add: made_of_rev_iff)
  have "[] \<notin> set white_space" by (simp add: white_space_def)
  have "?t = []"
  proof (rule ccontr)
    assume ne: "?t \<noteq> []"
    from made_of_leading[OF m ne \<open>[] \<notin> set white_space\<close>] strip_fixed[of white_space s] ne
    show False by simp
  qed
  then show "blank s" unfolding blank_def by (rule strip_made_of)
qed

section \<open>Evaluation on concrete pages\<close>

lemmas js_string_defs = trim_def white_space_def leading_def strip_Nil strip_Cons isDigit_def digits_value_def
  scan_exponent_def scan_unsigned_def scan_signed_def parseFloat_def Number_def
  parseFloat_of_def or_zero_def digits_only_def digits_and_dots_def not_quote_def
  not_bracket_def range_separator_def categories_of_def parsedRange_of_def

lemma fresh_fields:
  "parameters fresh_page =
     [\<lparr>name = ''temperature10x'', ptype = Continuous, range_text = ''0-10''\<rparr>,
      \<lparr>name = pressure, ptype = Categorical, range_text = ''a,b,c''\<rparr>]"
  "phase fresh_page = Setup" "trialCount fresh_page = Fin 3" "history fresh_page = []"
  "storage fresh_page = None" "rng fresh_page = spike_rng" "direction fresh_page = Minimize"
  by (simp_all add: fresh_page_def initial_app_def pressure_def)

lemma build_bounds_default:
  "build_bounds (parameters fresh_page) Map.empty [] =
     Inr (Map.empty(pressure \<mapsto> [''a'', ''b'', ''c'']), [(Fin 0, Fin 10), (Fin 0, Fin 2)])"
  by (simp add: fresh_fields pressure_def js_string_defs at_index_def)

lemmas handler_defs = run_def step_def startManualInput_def handleManualParamChange_def
  handleManualValueChange_def submitManualTrial_def startOptimization_def saveToStorage_def
  loadFromStorage_def new_objects_def stringify_def parsed_def validParameters_def
  array_length_def fromEntries_def encodeParam_def
  encodeCategorical_def constructor_def addObservation_def jgt_def jsub_def at_index_def

section \<open>Entering the manual phase\<close>

lemma assign_values:
  "(\<forall>(k', v') \<in> set m. P v') \<Longrightarrow> P v \<Longrightarrow> \<forall>(k', v') \<in> set (assign k v m). P v'"
  by (induction m) (auto split: if_splits)

lemma foldl_assign_values:
  "(\<forall>(k, v) \<in> set m. P v) \<Longrightarrow> (\<forall>(k, v) \<in> set es. P v) \<Longrightarrow>
   \<forall>(k, v) \<in> set (foldl (\<lambda>m (k, v). assign k v m) m es). P v"
proof (induction es arbitrary: m)
  case Nil
  then show ?case by simp
next
  case (Cons e es)
  obtain k v where e: "e = (k, v)" by (cases e)
  from Cons.prems have "P v" by (simp add: e)
  from assign_values[OF Cons.prems(1) this, of k]
  have "\<forall>(k', v') \<in> set (assign k v m). P v'" .
  from Cons.IH[OF this] Cons.prems(2) show ?case by (simp add: e)
qed

lemma fromEntries_values:
  "(\<forall>(k, v) \<in> set es. P v) \<Longrightarrow> \<forall>(k, v) \<in> set (fromEntries es). P v"
  unfolding fromEntries_def by (rule foldl_assign_values) simp_all

lemma array_length_int:
  "0 \<le> n \<Longrightarrow> n < 2 ^ 32 \<Longrightarrow> array_length (Fin (of_int n)) = Some (nat n)"
  by (simp add: array_length_def)

lemma array_length_not_int:
  "(\<forall>n. x \<noteq> Fin (of_int n)) \<Longrightarrow> array_length x = None"
  by (cases x) (auto simp: array_length_def)

lemma validParameters_filled: "validParameters ps \<noteq> [] \<longleftrightarrow> filled ps"
  by (auto simp: validParameters_def filled_def filter_empty_conv trim_blank)

lemma in_range_int:
  "jlt (Fin (of_int n)) (Fin 3) \<longleftrightarrow> n < 3"
  "jgt (Fin (of_int n)) (Fin 10) \<longleftrightarrow> 10 < n"
  by (auto simp: jgt_def)

lemma startManualInput_success:
  assumes "filled (parameters s)" and "trialCount s = Fin (of_int n)" and "3 \<le> n" and "n \<le> 10"
  shows "startManualInput s =
     (None,
      (new_objects
         (replicate (nat n)
            (fromEntries (map (\<lambda>param. (trim (name param), []))
               (validParameters (parameters s)))))
         (s\<lparr>error := NoMessage\<rparr>))
        \<lparr>manualTrials :=
           map (\<lambda>i. \<lparr>trial_params = allocated s + i, trial_value = []\<rparr>) [0..<nat n],
         phase := Manual, currentTrialIndex := 0\<rparr>)"
proof -
  from assms(3,4) have al: "array_length (Fin (of_int n)) = Some (nat n)"
    by (intro array_length_int) auto
  from assms(3,4) have guard: "\<not> (jlt (Fin (of_int n)) (Fin 3) \<or> jgt (Fin (of_int n)) (Fin 10))"
    by (simp add: in_range_int)
  from assms(1) have v: "validParameters (parameters s) \<noteq> []"
    by (simp add: validParameters_filled)
  show ?thesis
    using v guard by (simp add: startManualInput_def assms(2) al Let_def)
qed

text \<open>
  C8, as amended.  From the setup phase startManualInput moves to the manual phase
  exactly when some parameter has a name and a range text that are not blank and the
  seed count is an integer n with 3 <= n <= 10; the range text is not parsed, so the
  parameter need not have bounds.  Then nothing is raised, there are exactly n trials,
  each with a parameter object of its own, every field of every trial is empty, the
  current trial index is 0 and no message is shown.  With no such parameter, or with a
  seed count below 3 or above 10, the only change to the state is the validation
  message.  With any other seed count, a number from 3 to 10 that is not an integer or
  NaN, the handler raises a RangeError, no message is shown and the phase stays as it
  is.  The counterexample: a parameter with the range text abc, from which
  startOptimization builds no bounds, enters the manual phase with no message; and
  with the default parameters and a seed count of 3.5 the phase stays setup and no
  message is shown.
\<close>

theorem startManualInput_transition:
  assumes "phase s = Setup"
  shows
    "(phase (snd (startManualInput s)) = Manual \<longleftrightarrow>
        filled (parameters s) \<and> (\<exists>n. trialCount s = Fin (of_int n) \<and> 3 \<le> n \<and> n \<le> 10)) \<and>
     (filled (parameters s) \<and> trialCount s = Fin (of_int n) \<and> 3 \<le> n \<and> n \<le> 10 \<longrightarrow>
        fst (startManualInput s) = None \<and>
        length (manualTrials (snd (startManualInput s))) = nat n \<and>
        distinct (map trial_params (manualTrials (snd (startManualInput s)))) \<and>
        (\<forall>t \<in> set (manualTrials (snd (startManualInput s))).
           trial_value t = [] \<and>
           (\<forall>(k, v) \<in> set (objects (snd (startManualInput s)) (trial_params t)). v = [])) \<and>
        currentTrialIndex (snd (startManualInput s)) = 0 \<and>
        error (snd (startManualInput s)) = NoMessage) \<and>
     (\<not> filled (parameters s) \<longrightarrow>
        startManualInput s = (None, s\<lparr>error := NeedValidParameter\<rparr>)) \<and>
     (filled (parameters s) \<and> (jlt (trialCount s) (Fin 3) \<or> jgt (trialCount s) (Fin 10)) \<longrightarrow>
        startManualInput s = (None, s\<lparr>error := TrialCountOutOfRange\<rparr>)) \<and>
     (filled (parameters s) \<and> \<not> jlt (trialCount s) (Fin 3) \<and> \<not> jgt (trialCount s) (Fin 10) \<and>
      (\<forall>n. trialCount s \<noteq> Fin (of_int n)) \<longrightarrow>
        startManualInput s = (Some RangeError, s\<lparr>error := NoMessage\<rparr>))"
proof -
  have none: "startManualInput s = (None, s\<lparr>error := NeedValidParameter\<rparr>)"
    if "\<not> filled (parameters s)"
    using that by (simp add: startManualInput_def Let_def validParameters_filled[symmetric])
  have out: "startManualInput s = (None, s\<lparr>error := TrialCountOutOfRange\<rparr>)"
    if "filled (parameters s)" "jlt (trialCount s) (Fin 3) \<or> jgt (trialCount s) (Fin 10)"
    using that by (simp add: startManualInput_def Let_def validParameters_filled[symmetric])
  have thrown: "startManualInput s = (Some RangeError, s\<lparr>error := NoMessage\<rparr>)"
    if "filled (parameters s)" "\<not> jlt (trialCount s) (Fin 3)" "\<not> jgt (trialCount s) (Fin 10)"
      "\<forall>n. trialCount s \<noteq> Fin (of_int n)"
    using that array_length_not_int[OF that(4)]
    by (simp add: startManualInput_def Let_def validParameters_filled[symmetric])
  have entered: "fst (startManualInput s) = None \<and>
        phase (snd (startManualInput s)) = Manual \<and>
        length (manualTrials (snd (startManualInput s))) = nat m \<and>
        distinct (map trial_params (manualTrials (snd (startManualInput s)))) \<and>
        (\<forall>t \<in> set (manualTrials (snd (startManualInput s))).
           trial_value t = [] \<and>
           (\<forall>(k, v) \<in> set (objects (snd (startManualInput s)) (trial_params t)). v = [])) \<and>
        currentTrialIndex (snd (startManualInput s)) = 0 \<and>
        error (snd (startManualInput s)) = NoMessage"
    if "filled (parameters s)" "trialCount s = Fin (of_int m)" "3 \<le> m" "m \<le> 10" for m
  proof -
    let ?X = "fromEntries (map (\<lambda>param. (trim (name param), []))
               (validParameters (parameters s)))"
    have empty: "\<forall>(k, v) \<in> set ?X. v = []"
      by (rule fromEntries_values) auto
    have inj: "inj_on (\<lambda>i. allocated s + i) A" for A
      by (simp add: inj_on_def)
    have d: "distinct (map (\<lambda>i. allocated s + i) [0..<nat m])"
      by (simp add: distinct_map inj)
    show ?thesis
      unfolding startManualInput_success[OF that]
      using empty d by (auto simp: new_objects_def comp_def)
  qed
  have iff: "phase (snd (startManualInput s)) = Manual \<longleftrightarrow>
        filled (parameters s) \<and> (\<exists>n. trialCount s = Fin (of_int n) \<and> 3 \<le> n \<and> n \<le> 10)"
  proof (cases "filled (parameters s)")
    case False
    with none assms show ?thesis by simp
  next
    case f: True
    show ?thesis
    proof (cases "jlt (trialCount s) (Fin 3) \<or> jgt (trialCount s) (Fin 10)")
      case True
      then have "\<not> (\<exists>n. trialCount s = Fin (of_int n) \<and> 3 \<le> n \<and> n \<le> 10)"
        using True by (auto simp: in_range_int)
      with out[OF f True] assms show ?thesis by simp
    next
      case inr: False
      show ?thesis
      proof (cases "\<exists>n. trialCount s = Fin (of_int n)")
        case True
        then obtain m where m: "trialCount s = Fin (of_int m)" by blast
        with inr have "3 \<le> m" "m \<le> 10" by (auto simp: in_range_int)
        with entered[OF f m] f m show ?thesis by blast
      next
        case False
        with thrown[OF f] inr assms show ?thesis by auto
      qed
    qed
  qed
  from iff none out thrown entered[of n] show ?thesis by blast
qed

lemma filled_examples:
  "filled (parameters fresh_page)"
  "\<not> filled (parameters blank_names_page)"
  "filled (parameters unbounded_page)"
  unfolding validParameters_filled[symmetric]
  by (simp_all add: fresh_fields blank_names_page_def unbounded_page_def validParameters_def
      pressure_def js_string_defs)

lemma not_an_integer: "\<forall>n. Fin (7 / 2) \<noteq> Fin (of_int n)"
proof (intro allI notI)
  fix n :: int
  assume "Fin (7 / 2) = Fin (of_int n)"
  then have "(7::real) = of_int (2 * n)" by simp
  then have "(7::int) = 2 * n" by (metis of_int_eq_iff of_int_numeral)
  then show False by presburger
qed

theorem startManualInput_transition_witness:
  "phase (snd (startManualInput fresh_page)) = Manual \<and>
   fst (startManualInput fresh_page) = None \<and>
   length (manualTrials (snd (startManualInput fresh_page))) = 3 \<and>
   map (objects (snd (startManualInput fresh_page)) \<circ> trial_params)
     (manualTrials (snd (startManualInput fresh_page))) =
     replicate 3 [(''temperature10x'', []), (pressure, [])] \<and>
   startManualInput (fresh_page\<lparr>trialCount := Fin 11\<rparr>) =
     (None, fresh_page\<lparr>trialCount := Fin 11, error := TrialCountOutOfRange\<rparr>) \<and>
   startManualInput (fresh_page\<lparr>trialCount := NegInf\<rparr>) =
     (None, fresh_page\<lparr>trialCount := NegInf, error := TrialCountOutOfRange\<rparr>) \<and>
   startManualInput blank_names_page = (None, blank_names_page\<lparr>error := NeedValidParameter\<rparr>) \<and>
   startManualInput (fresh_page\<lparr>trialCount := Fin (7 / 2)\<rparr>) =
     (Some RangeError, fresh_page\<lparr>trialCount := Fin (7 / 2), error := NoMessage\<rparr>) \<and>
   startManualInput (fresh_page\<lparr>trialCount := NaN\<rparr>) =
     (Some RangeError, fresh_page\<lparr>trialCount := NaN, error := NoMessage\<rparr>)"
proof -
  have ph: "phase fresh_page = Setup" "phase (fresh_page\<lparr>trialCount := x\<rparr>) = Setup"
    "phase blank_names_page = Setup" for x
    by (simp_all add: fresh_fields blank_names_page_def)
  have f: "filled (parameters (fresh_page\<lparr>trialCount := x\<rparr>))" for x
    using filled_examples(1) by simp
  have tc: "trialCount fresh_page = Fin (of_int 3)"
    by (simp add: fresh_fields)
  note a = startManualInput_transition[OF ph(1), of 3]
  from a filled_examples(1) tc
  have 1: "phase (snd (startManualInput fresh_page)) = Manual"
    "fst (startManualInput fresh_page) = None"
    "length (manualTrials (snd (startManualInput fresh_page))) = 3"
    by auto
  have 2: "map (objects (snd (startManualInput fresh_page)) \<circ> trial_params)
     (manualTrials (snd (startManualInput fresh_page))) =
     replicate 3 [(''temperature10x'', []), (pressure, [])]"
    by (simp add: fresh_page_def initial_app_def pressure_def handler_defs js_string_defs
        Let_def numeral_3_eq_3)
  from startManualInput_transition[OF ph(2), of "Fin 11" 0] f
  have 3: "startManualInput (fresh_page\<lparr>trialCount := Fin 11\<rparr>) =
     (None, fresh_page\<lparr>trialCount := Fin 11, error := TrialCountOutOfRange\<rparr>)"
    by (simp add: jgt_def)
  from startManualInput_transition[OF ph(2), of NegInf 0] f
  have 4: "startManualInput (fresh_page\<lparr>trialCount := NegInf\<rparr>) =
     (None, fresh_page\<lparr>trialCount := NegInf, error := TrialCountOutOfRange\<rparr>)"
    by (simp add: jgt_def)
  from startManualInput_transition[OF ph(3), of 0] filled_examples(2)
  have 5: "startManualInput blank_names_page =
     (None, blank_names_page\<lparr>error := NeedValidParameter\<rparr>)"
    by simp
  from startManualInput_transition[OF ph(2), of "Fin (7 / 2)" 0] f not_an_integer
  have 6: "startManualInput (fresh_page\<lparr>trialCount := Fin (7 / 2)\<rparr>) =
     (Some RangeError, fresh_page\<lparr>trialCount := Fin (7 / 2), error := NoMessage\<rparr>)"
    by (simp add: jgt_def)
  from startManualInput_transition[OF ph(2), of NaN 0] f
  have 7: "startManualInput (fresh_page\<lparr>trialCount := NaN\<rparr>) =
     (Some RangeError, fresh_page\<lparr>trialCount := NaN, error := NoMessage\<rparr>)"
    by (simp add: jgt_def)
  from 1 2 3 4 5 6 7 show ?thesis by simp
qed

theorem startManualInput_unbounded_counterexample:
  "build_bounds (parameters unbounded_page) Map.empty [] = Inl (InvalidRange ''x'') \<and>
   trialCount unbounded_page = Fin 3 \<and>
   fst (startManualInput unbounded_page) = None \<and>
   phase (snd (startManualInput unbounded_page)) = Manual \<and>
   error (snd (startManualInput unbounded_page)) = NoMessage \<and>
   build_bounds (parameters fresh_page) Map.empty [] =
     Inr (Map.empty(pressure \<mapsto> [''a'', ''b'', ''c'']), [(Fin 0, Fin 10), (Fin 0, Fin 2)]) \<and>
   jle (Fin 3) (Fin (7 / 2)) \<and> jle (Fin (7 / 2)) (Fin 10) \<and>
   fst (startManualInput (fresh_page\<lparr>trialCount := Fin (7 / 2)\<rparr>)) = Some RangeError \<and>
   phase (snd (startManualInput (fresh_page\<lparr>trialCount := Fin (7 / 2)\<rparr>))) = Setup \<and>
   error (snd (startManualInput (fresh_page\<lparr>trialCount := Fin (7 / 2)\<rparr>))) = NoMessage"
proof -
  have 1: "build_bounds (parameters unbounded_page) Map.empty [] = Inl (InvalidRange ''x'')"
    by (simp add: unbounded_page_def js_string_defs at_index_def)
  have 2: "trialCount unbounded_page = Fin 3"
    by (simp add: unbounded_page_def fresh_fields)
  have 3: "fst (startManualInput unbounded_page) = None \<and>
     phase (snd (startManualInput unbounded_page)) = Manual \<and>
     error (snd (startManualInput unbounded_page)) = NoMessage"
    by (simp add: unbounded_page_def fresh_page_def initial_app_def handler_defs js_string_defs
        Let_def)
  have al: "array_length (Fin (7 / 2)) = None"
    by (rule array_length_not_int) (rule not_an_integer)
  have 4: "fst (startManualInput (fresh_page\<lparr>trialCount := Fin (7 / 2)\<rparr>)) = Some RangeError \<and>
     phase (snd (startManualInput (fresh_page\<lparr>trialCount := Fin (7 / 2)\<rparr>))) = Setup \<and>
     error (snd (startManualInput (fresh_page\<lparr>trialCount := Fin (7 / 2)\<rparr>))) = NoMessage"
    using filled_examples(1)
    by (simp add: startManualInput_def Let_def validParameters_filled al jgt_def fresh_fields)
  from 1 2 3 4 build_bounds_default show ?thesis by (simp add: jle_def)
qed

section \<open>The iteration horizon\<close>

lemma fetchNextSuggest_fields:
  "phase (fetchNextSuggest ps b m w) = phase w"
  "totalIter (fetchNextSuggest ps b m w) = totalIter w"
  "trialCount (fetchNextSuggest ps b m w) = trialCount w"
  "manualTrials (fetchNextSuggest ps b m w) = manualTrials w"
  "optimizer (fetchNextSuggest ps b m w) = optimizer w"
  "history (fetchNextSuggest ps b m w) = history w"
  "objects (fetchNextSuggest ps b m w) = objects w"
  "storage (fetchNextSuggest ps b m w) = storage w"
  by (simp_all add: fetchNextSuggest_def Let_def split: prod.splits)













section \<open>Encoding categorical values\<close>

lemma indexOf_Some:
  "indexOf cs (Some label) = Some i \<Longrightarrow>
   i < length cs \<and> cs ! i = label \<and> (\<forall>j<i. cs ! j \<noteq> label)"
proof (induction cs arbitrary: i)
  case Nil
  then show ?case by simp
next
  case (Cons c cs)
  show ?case
  proof (cases "label = c")
    case True
    with Cons.prems show ?thesis by simp
  next
    case False
    with Cons.prems obtain i' where i': "indexOf cs (Some label) = Some i'" "i = Suc i'"
      by auto
    from Cons.IH[OF i'(1)] False i'(2) show ?thesis
      by (auto simp: nth_Cons split: nat.splits)
  qed
qed

lemma indexOf_member: "label \<in> set cs \<Longrightarrow> \<exists>i. indexOf cs (Some label) = Some i"
  by (induction cs) auto

lemma indexOf_absent: "label \<notin> set cs \<Longrightarrow> indexOf cs (Some label) = None"
  by (induction cs) auto

lemma indexOf_undefined: "indexOf cs None = None"
  by (induction cs) auto

lemma remote_absent:
  assumes "indexOf cs raw = None"
  shows "remoteEncodeCategorical cs raw =
     (if parseFloat_of raw = NaN then (case raw of None \<Rightarrow> Undefined | Some s \<Rightarrow> Str s)
      else Num (parseFloat_of raw))"
  using assms
  by (cases raw)
     (auto simp: remoteEncodeCategorical_def remoteCategorical_def remoteEnsureNumeric_def
        parseFloat_of_def)

lemma build_bounds_dom:
  "build_bounds ps m bs = Inr (maps, bounds') \<Longrightarrow>
   dom m \<subseteq> dom maps \<and> (\<forall>p \<in> set ps. named_categorical p \<longrightarrow> trim (name p) \<in> dom maps)"
proof (induction ps m bs rule: build_bounds.induct)
  case (1 m bs)
  then show ?case by simp
next
  case (2 param rest m bs)
  show ?case
  proof (cases "trim (name param) = []")
    case True
    with 2 show ?thesis by (simp add: named_categorical_def)
  next
    case named: False
    show ?thesis
    proof (cases "ptype param = Categorical")
      case True
      with named "2.prems" have ok: "\<not> length (categories_of param) < 2"
        and rec: "build_bounds rest (m(trim (name param) \<mapsto> categories_of param))
           (bs @ [(Fin 0, Fin (real (length (categories_of param)) - 1))]) = Inr (maps, bounds')"
        by (auto split: if_splits)
      note ih = "2.IH"(2)[OF named True ok rec]
      from ih have r: "\<forall>p \<in> set rest. named_categorical p \<longrightarrow> trim (name p) \<in> dom maps"
        by blast
      from ih have sub: "\<forall>x. x = trim (name param) \<or> x \<in> dom m \<longrightarrow> x \<in> dom maps"
        by (fastforce simp: subset_iff dom_def)
      then have "dom m \<subseteq> dom maps" "trim (name param) \<in> dom maps" by blast+
      with r show ?thesis by simp
    next
      case False
      with named "2.prems" have ok: "\<not> (length (parsedRange_of param) \<noteq> 2 \<or>
               at_index (parsedRange_of param) 0 = NaN \<or>
               at_index (parsedRange_of param) 1 = NaN)"
        and rec: "build_bounds rest m
           (bs @ [(at_index (parsedRange_of param) 0, at_index (parsedRange_of param) 1)]) =
           Inr (maps, bounds')"
        by (auto split: if_splits)
      from "2.IH"(3)[OF named False ok rec] False
      show ?thesis by (auto simp: named_categorical_def)
    qed
  qed
qed

lemma encodeParams_total:
  "\<forall>p \<in> set ps. named_categorical p \<longrightarrow> trim (name p) \<in> dom maps \<Longrightarrow>
   \<exists>xs. encodeParams ps maps objs t = Inr xs"
proof (induction ps)
  case Nil
  then show ?case by simp
next
  case (Cons p ps)
  then obtain xs where xs: "encodeParams ps maps objs t = Inr xs" by auto
  show ?case
  proof (cases "trim (name p) = []")
    case True
    with xs show ?thesis by simp
  next
    case False
    have "\<exists>x. encodeParam maps objs t p = Inr x"
      using Cons.prems False
      by (auto simp: encodeParam_def named_categorical_def Let_def split: option.splits)
    with xs False show ?thesis by auto
  qed
qed

text \<open>
  C6, as amended.  A label that is a category encodes as the first index holding it,
  in both encoders.  A label that is not a category encodes as 0 in the in-process
  encoder, whatever the raw text; in the encoder of the remote variant it encodes as
  the number parseFloat reads from the raw text, and stays the raw text when parseFloat
  reads no number.  With the category maps that startOptimization builds, encoding a
  trial never raises.  The counterexample: the raw text 2 becomes 0 in process although
  it parses to 2, and the raw text x stays a string in the remote variant.
\<close>

theorem categorical_encoding:
  "(label \<in> set categories \<longrightarrow>
      (\<exists>i < length categories.
         categories ! i = label \<and> (\<forall>j<i. categories ! j \<noteq> label) \<and>
         encodeCategorical categories (Some label) = Fin (real i) \<and>
         remoteEncodeCategorical categories (Some label) = Num (Fin (real i)))) \<and>
   (label \<notin> set categories \<longrightarrow>
      encodeCategorical categories (Some label) = Fin 0 \<and>
      remoteEncodeCategorical categories (Some label) =
        (if parseFloat label = NaN then Str label else Num (parseFloat label))) \<and>
   (build_bounds ps Map.empty [] = Inr (maps, bs) \<longrightarrow>
      (\<exists>xs. encodeParams ps maps objs t = Inr xs))"
proof (intro conjI impI)
  assume "label \<in> set categories"
  then obtain i where i: "indexOf categories (Some label) = Some i"
    using indexOf_member by blast
  from indexOf_Some[OF i] i
  show "\<exists>i < length categories.
         categories ! i = label \<and> (\<forall>j<i. categories ! j \<noteq> label) \<and>
         encodeCategorical categories (Some label) = Fin (real i) \<and>
         remoteEncodeCategorical categories (Some label) = Num (Fin (real i))"
    by (auto simp: encodeCategorical_def remoteEncodeCategorical_def remoteCategorical_def
        remoteEnsureNumeric_def)
next
  assume a: "label \<notin> set categories"
  then show "encodeCategorical categories (Some label) = Fin 0"
    by (simp add: encodeCategorical_def indexOf_absent)
  from remote_absent[OF indexOf_absent[OF a]]
  show "remoteEncodeCategorical categories (Some label) =
        (if parseFloat label = NaN then Str label else Num (parseFloat label))"
    by (simp add: parseFloat_of_def)
next
  assume "build_bounds ps Map.empty [] = Inr (maps, bs)"
  from build_bounds_dom[OF this] show "\<exists>xs. encodeParams ps maps objs t = Inr xs"
    by (intro encodeParams_total) simp
qed

lemma parseFloat_examples: "parseFloat ''2'' = Fin 2" "parseFloat ''x'' = NaN"
  by (simp_all add: js_string_defs)

theorem categorical_encoding_witness:
  "encodeCategorical [''red'', ''green'', ''blue''] (Some ''blue'') = Fin 2 \<and>
   remoteEncodeCategorical [''red'', ''green'', ''blue''] (Some ''blue'') = Num (Fin 2) \<and>
   encodeCategorical [''red'', ''green'', ''blue''] (Some ''2'') = Fin 0 \<and>
   remoteEncodeCategorical [''red'', ''green'', ''blue''] (Some ''2'') = Num (Fin 2) \<and>
   remoteEncodeCategorical [''red'', ''green'', ''blue''] (Some ''x'') = Str ''x'' \<and>
   encodeParams (parameters fresh_page) (Map.empty(pressure \<mapsto> [''a'', ''b'', ''c'']))
     (\<lambda>a. [(''temperature10x'', ''5''), (pressure, ''2'')])
     \<lparr>trial_params = 0, trial_value = ''1''\<rparr> =
     Inr [Fin 5, Fin 0]"
proof -
  have 1: "''blue'' \<in> set [''red'', ''green'', ''blue'']" by simp
  have 2: "''2'' \<notin> set [''red'', ''green'', ''blue'']" by simp
  have 3: "''x'' \<notin> set [''red'', ''green'', ''blue'']" by simp
  from categorical_encoding[where label = "''blue''" and categories = "[''red'', ''green'', ''blue'']",
      THEN conjunct1] 1
  obtain i where i: "i < 3" "[''red'', ''green'', ''blue''] ! i = ''blue''"
    and e: "encodeCategorical [''red'', ''green'', ''blue''] (Some ''blue'') = Fin (real i)"
       "remoteEncodeCategorical [''red'', ''green'', ''blue''] (Some ''blue'') = Num (Fin (real i))"
    by auto
  from i have "i = 2"
    by (cases i; simp; rename_tac k; case_tac k; simp)
  with e have a: "encodeCategorical [''red'', ''green'', ''blue''] (Some ''blue'') = Fin 2"
     "remoteEncodeCategorical [''red'', ''green'', ''blue''] (Some ''blue'') = Num (Fin 2)"
    by simp_all
  from categorical_encoding[where label = "''2''" and categories = "[''red'', ''green'', ''blue'']",
      THEN conjunct2, THEN conjunct1] 2
  have b: "encodeCategorical [''red'', ''green'', ''blue''] (Some ''2'') = Fin 0"
    "remoteEncodeCategorical [''red'', ''green'', ''blue''] (Some ''2'') = Num (Fin 2)"
    by (simp_all add: parseFloat_examples)
  from categorical_encoding[where label = "''x''" and categories = "[''red'', ''green'', ''blue'']",
      THEN conjunct2, THEN conjunct1] 3
  have c: "remoteEncodeCategorical [''red'', ''green'', ''blue''] (Some ''x'') = Str ''x''"
    by (simp add: parseFloat_examples)
  from categorical_encoding[where ps = "parameters fresh_page"
      and maps = "Map.empty(pressure \<mapsto> [''a'', ''b'', ''c''])"
      and bs = "[(Fin 0, Fin 10), (Fin 0, Fin 2)]"
      and objs = "\<lambda>a. [(''temperature10x'', ''5''), (pressure, ''2'')]"
      and t = "\<lparr>trial_params = 0, trial_value = ''1''\<rparr>",
      THEN conjunct2, THEN conjunct2]
    build_bounds_default
  obtain xs where "encodeParams (parameters fresh_page)
      (Map.empty(pressure \<mapsto> [''a'', ''b'', ''c'']))
      (\<lambda>a. [(''temperature10x'', ''5''), (pressure, ''2'')])
     \<lparr>trial_params = 0, trial_value = ''1''\<rparr> = Inr xs"
    by auto
  moreover have "encodeParams (parameters fresh_page)
      (Map.empty(pressure \<mapsto> [''a'', ''b'', ''c'']))
      (\<lambda>a. [(''temperature10x'', ''5''), (pressure, ''2'')])
     \<lparr>trial_params = 0, trial_value = ''1''\<rparr> =
      Inr [Fin 5, Fin 0]"
    by (simp add: fresh_fields pressure_def encodeParam_def encodeCategorical_def js_string_defs)
  ultimately have d: "encodeParams (parameters fresh_page)
      (Map.empty(pressure \<mapsto> [''a'', ''b'', ''c'']))
      (\<lambda>a. [(''temperature10x'', ''5''), (pressure, ''2'')])
     \<lparr>trial_params = 0, trial_value = ''1''\<rparr> =
      Inr [Fin 5, Fin 0]"
    by simp
  from a b c d show ?thesis by simp
qed

theorem categorical_fallback_counterexample:
  "''2'' \<notin> set [''a'', ''b'', ''c''] \<and>
   encodeCategorical [''a'', ''b'', ''c''] (Some ''2'') = Fin 0 \<and>
   or_zero (parseFloat ''2'') = Fin 2 \<and>
   ''x'' \<notin> set [''a'', ''b'', ''c''] \<and>
   remoteEncodeCategorical [''a'', ''b'', ''c''] (Some ''x'') = Str ''x'' \<and>
   or_zero (parseFloat ''x'') = Fin 0"
  by (simp add: encodeCategorical_def remoteEncodeCategorical_def remoteCategorical_def
      remoteEnsureNumeric_def parseFloat_of_def parseFloat_examples or_zero_def)

section \<open>A session that skips to the last trial\<close>

text \<open>
  submitManualTrial validates the current trial only, and startOptimization registers
  every manual trial.  After \<open>skip_to_last\<close> the first two trials are registered
  as they are: an empty field is encoded as 0 and the empty objective value is read as
  NaN.
\<close>

lemma page_nan_log: "optimizer (run skip_to_last fresh_page) = Some nan_log"
  by (simp add: skip_to_last_def one_trial_def fresh_page_def initial_app_def pressure_def
      handler_defs js_string_defs fetchNextSuggest_fields Let_def numeral_3_eq_3 nan_log_def)


text \<open>
  The history item made from a trial holds the parameter object of the trial: an edit
  of the submitted trial shows in the history, while the storage entry keeps the text
  written at the submission.
\<close>

lemma history_shares_params:
  "map (objects (run (StartManualInput # one_trial @
          [GoToTrial 0, EditParam ''temperature10x'' ''7'']) fresh_page) \<circ> trial_params)
     (history (run (StartManualInput # one_trial @
          [GoToTrial 0, EditParam ''temperature10x'' ''7'']) fresh_page)) =
     [[(''temperature10x'', ''7''), (pressure, ''a'')]]"
  "map_option (map saved_params \<circ> st_history)
     (storage (run (StartManualInput # one_trial @
          [GoToTrial 0, EditParam ''temperature10x'' ''7'']) fresh_page)) =
     Some [[(''temperature10x'', ''5''), (pressure, ''a'')]]"
  by (simp_all add: one_trial_def fresh_page_def initial_app_def pressure_def
      handler_defs js_string_defs Let_def numeral_3_eq_3)

text \<open>
  The counterexample to C3 as stated: on the log of that session, minimizing,
  getBestResult returns the first observation, whose value is NaN, although the log
  holds the number 1.5.
\<close>

theorem getBestResult_nan_log_counterexample:
  "optimizer (run skip_to_last fresh_page) = Some nan_log \<and>
   \<not> maximize nan_log \<and>
   map value_of (observations nan_log) = [NaN, NaN, Fin (3 / 2)] \<and>
   getBestResult nan_log = (Inr \<lparr>params = [Fin 0, Fin 0], value_of = NaN\<rparr>, nan_log)"
  using page_nan_log
  by (simp add: nan_log_fields getBestResult_def best_loop.simps jgt_def)


end
